theory Spec2Isabelle
  imports Complex_Main "HOL-Library.Word" "HOL-Library.Product_Lexorder" "HOL-Library.Multiset"
begin


section \<open>Common types\<close>

type_synonym byte = "8 word"
type_synonym u32 = "32 word"

text \<open>
  \<^verbatim>\<open>BMX_ASSERT\<close>, \<^verbatim>\<open>BMX_CHECK\<close>, \<^verbatim>\<open>BMX_EXCEPTION\<close> and \<^verbatim>\<open>throw BMXException\<close> all raise a
  \<^verbatim>\<open>BMXException\<close>; \<^verbatim>\<open>THROW_RESULT\<close> raises an \<^verbatim>\<open>OpenResult\<close>. A function that can raise
  returns \<open>bmx_exception + 'a\<close>, with \<open>Inl\<close> for the exception.
\<close>

datatype bmx_exception =
    AssertFailed
  | CheckFailed
  | BMXException
  | ResultNotSupported
  | ResultNoEssence

section \<open>RawEssenceReader (src/src/essence_parser/RawEssenceReader.cpp)\<close>

subsection \<open>Collaborators: essence source, essence parser, parsed frame size\<close>

text \<open>
  The essence source is an abstract class (\<^verbatim>\<open>Read(dest, n) -> n_read\<close>, \<^verbatim>\<open>SeekStart\<close>).
  Its state is a type parameter \<open>'s\<close> and its two operations are passed as functions.
  \<^verbatim>\<open>Read\<close> writes at most the requested number of bytes: whatever the function returns
  is cut to that number.
\<close>

record 's EssenceSource =
  src_Read :: "'s \<Rightarrow> u32 \<Rightarrow> byte list \<times> 's"
  src_SeekStart :: "'s \<Rightarrow> bool \<times> 's"

definition EssenceSource_Read :: "'s EssenceSource \<Rightarrow> 's \<Rightarrow> u32 \<Rightarrow> byte list \<times> 's" where
  "EssenceSource_Read es s n = (case src_Read es s n of (bs, s') \<Rightarrow> (take (unat n) bs, s'))"

text \<open>
  Modelled from the spec: the class \<^verbatim>\<open>ParsedFrameSize\<close> is only declared in
  \<^verbatim>\<open>EssenceParser.h\<close>; the spec gives it as a three-state value, \<open>Unknown\<close>, \<open>Null\<close> or
  complete, the complete form being a frame size or two field sizes.
\<close>

datatype ParsedFrameSize = Unknown | Null | Frame u32 | Fields u32 u32

fun IsUnknown :: "ParsedFrameSize \<Rightarrow> bool" where
  "IsUnknown Unknown = True"
| "IsUnknown _ = False"

fun IsNull :: "ParsedFrameSize \<Rightarrow> bool" where
  "IsNull Null = True"
| "IsNull _ = False"

fun IsComplete :: "ParsedFrameSize \<Rightarrow> bool" where
  "IsComplete (Frame _) = True"
| "IsComplete (Fields _ _) = True"
| "IsComplete _ = False"

fun GetSize :: "ParsedFrameSize \<Rightarrow> u32" where
  "GetSize (Frame n) = n"
| "GetSize (Fields a b) = a + b"
| "GetSize _ = 0"

text \<open>
  The essence parser is an abstract class with private state between calls (type
  parameter \<open>'p\<close>). \<^verbatim>\<open>CompleteSize\<close> is the last-resort completion of an unknown frame
  size from the number of bytes available: \<open>Some\<close> of the completed size when it accepts.
\<close>

record 'p EssenceParser =
  ParseFrameStart :: "'p \<Rightarrow> byte list \<Rightarrow> u32 \<times> 'p"
  ResetParseFrameSize :: "'p \<Rightarrow> 'p"
  ParseFrameSize2 :: "'p \<Rightarrow> byte list \<Rightarrow> ParsedFrameSize \<times> 'p"
  CompleteSize :: "ParsedFrameSize \<Rightarrow> u32 \<Rightarrow> ParsedFrameSize option"

definition ESSENCE_PARSER_NULL_OFFSET :: u32 where
  "ESSENCE_PARSER_NULL_OFFSET = 0xffffffff"

subsection \<open>The reader's state\<close>

text \<open>
  The sample buffer is a byte array with a \<^verbatim>\<open>uint32_t\<close> size; \<open>mSampleBuffer\<close> holds its
  bytes and \<open>Buffer_GetSize\<close> reads the size. The two 64-bit byte counters
  \<open>mMaxReadLength\<close> and \<open>mTotalReadLength\<close> are integers (they count bytes read from one
  source and stay far below \<open>2 ^ 63\<close>); the 32-bit sizes are words and wrap as in the
  source. \<open>mEssenceParser\<close> is \<open>None\<close> for the null pointer.
\<close>

record ('s, 'p) RawEssenceReader =
  mEssenceSource :: 's
  mMaxReadLength :: int
  mTotalReadLength :: int
  mMaxSampleSize :: u32
  mFixedSampleSize :: u32
  mEssenceParser :: "'p option"
  mSampleBuffer :: "byte list"
  mSampleDataSize :: u32
  mNumSamples :: u32
  mFrameStartSize :: u32
  mReadBlockSize :: u32
  mReadFirstSample :: bool
  mLastSampleRead :: bool

definition Buffer_GetSize :: "byte list \<Rightarrow> u32" where
  "Buffer_GetSize b = word_of_nat (length b)"

definition Buffer_SetSize :: "byte list \<Rightarrow> u32 \<Rightarrow> byte list" where
  "Buffer_SetSize b n = take (unat n) b"

definition READ_BLOCK_SIZE :: u32 where
  "READ_BLOCK_SIZE = 8192"

definition PARSE_FRAME_START_SIZE :: u32 where
  "PARSE_FRAME_START_SIZE = 8192"

definition RawEssenceReader_new :: "'s \<Rightarrow> ('s, 'p) RawEssenceReader" where
  "RawEssenceReader_new essence_source =
     \<lparr> mEssenceSource = essence_source,
       mMaxReadLength = 0,
       mTotalReadLength = 0,
       mMaxSampleSize = 0,
       mFixedSampleSize = 0,
       mEssenceParser = None,
       mSampleBuffer = [],
       mSampleDataSize = 0,
       mNumSamples = 0,
       mFrameStartSize = PARSE_FRAME_START_SIZE,
       mReadBlockSize = READ_BLOCK_SIZE,
       mReadFirstSample = False,
       mLastSampleRead = False \<rparr>"

subsection \<open>ReadBytes, AppendBytes, ShiftSampleData\<close>

text \<open>
  \<open>actual_size\<close> is the request cut to the remaining budget; the cast to \<^verbatim>\<open>uint32_t\<close> is
  \<open>word_of_int\<close>.
\<close>

definition actual_size :: "('s, 'p) RawEssenceReader \<Rightarrow> u32 \<Rightarrow> u32" where
  "actual_size r sz =
     (if mMaxReadLength r > 0 \<and> mTotalReadLength r + uint sz > mMaxReadLength r
      then word_of_int (mMaxReadLength r - mTotalReadLength r)
      else sz)"

definition ReadBytes ::
  "'s EssenceSource \<Rightarrow> ('s, 'p) RawEssenceReader \<Rightarrow> u32 \<Rightarrow>
     bmx_exception + (('s, 'p) RawEssenceReader \<times> u32)" where
  "ReadBytes es r sz =
     (if \<not> (mMaxReadLength r = 0 \<or> mTotalReadLength r \<le> mMaxReadLength r) then Inl AssertFailed
      else if actual_size r sz = 0 then Inr (r, 0)
      else
        (case EssenceSource_Read es (mEssenceSource r) (actual_size r sz) of
           (bs, s') \<Rightarrow>
             (let num_read = (word_of_nat (length bs) :: u32)
              in Inr (r\<lparr> mEssenceSource := s',
                         mTotalReadLength := mTotalReadLength r + uint num_read,
                         mSampleBuffer := mSampleBuffer r @ bs \<rparr>,
                      num_read))))"

text \<open>
  \<^verbatim>\<open>AppendBytes(bytes, size)\<close> copies from the caller's memory, given as the function
  \<open>bytes\<close> from offsets to bytes.
\<close>

definition AppendBytes ::
  "('s, 'p) RawEssenceReader \<Rightarrow> (nat \<Rightarrow> byte) \<Rightarrow> u32 \<Rightarrow>
     bmx_exception + (('s, 'p) RawEssenceReader \<times> u32)" where
  "AppendBytes r bytes sz =
     (if \<not> (mMaxReadLength r = 0 \<or> mTotalReadLength r \<le> mMaxReadLength r) then Inl AssertFailed
      else if actual_size r sz = 0 then Inr (r, 0)
      else
        Inr (r\<lparr> mTotalReadLength := mTotalReadLength r + uint (actual_size r sz),
                mSampleBuffer := mSampleBuffer r @ map bytes [0 ..< unat (actual_size r sz)] \<rparr>,
             actual_size r sz))"

definition ShiftSampleData ::
  "('s, 'p) RawEssenceReader \<Rightarrow> u32 \<Rightarrow> u32 \<Rightarrow> bmx_exception + ('s, 'p) RawEssenceReader" where
  "ShiftSampleData r to_offset from_offset =
     (if \<not> to_offset \<le> from_offset then Inl AssertFailed
      else if \<not> from_offset \<le> Buffer_GetSize (mSampleBuffer r) then Inl AssertFailed
      else
        (let sz = Buffer_GetSize (mSampleBuffer r) - from_offset;
             moved = take (unat to_offset) (mSampleBuffer r)
                       @ take (unat sz) (drop (unat from_offset) (mSampleBuffer r))
                       @ drop (unat to_offset + unat sz) (mSampleBuffer r)
         in Inr (r\<lparr> mSampleBuffer := Buffer_SetSize moved (to_offset + sz) \<rparr>)))"

subsection \<open>ReadAndParseSample\<close>

text \<open>
  The \<^verbatim>\<open>while (true)\<close> loop asks the parser for the frame size and reads another block
  while the size is unknown. It runs as long as the source delivers bytes and the parser
  answers \<open>Unknown\<close>, so it takes fuel: \<open>None\<close> is the loop still running when the
  fuel is spent. The parser sees the window of \<open>sample_num_read\<close> bytes that starts at
  \<open>sample_start_offset\<close>.
\<close>

definition window :: "byte list \<Rightarrow> u32 \<Rightarrow> u32 \<Rightarrow> byte list" where
  "window b offset n = take (unat n) (drop (unat offset) b)"

fun ParseFrameSize_loop ::
  "nat \<Rightarrow> 's EssenceSource \<Rightarrow> 'p EssenceParser \<Rightarrow> ('s, 'p) RawEssenceReader \<Rightarrow> 'p \<Rightarrow> u32 \<Rightarrow> u32 \<Rightarrow>
     (bmx_exception + (('s, 'p) RawEssenceReader \<times> 'p \<times> ParsedFrameSize \<times> u32)) option" where
  "ParseFrameSize_loop 0 es ep r p sample_start_offset sample_num_read = None"
| "ParseFrameSize_loop (Suc fuel) es ep r p sample_start_offset sample_num_read =
     (case ParseFrameSize2 ep p (window (mSampleBuffer r) sample_start_offset sample_num_read) of
        (sample_size, p') \<Rightarrow>
          if \<not> IsUnknown sample_size then Some (Inr (r, p', sample_size, sample_num_read))
          else if \<not> (mMaxSampleSize r = 0 \<or>
                       Buffer_GetSize (mSampleBuffer r) - sample_start_offset \<le> mMaxSampleSize r)
          then Some (Inl CheckFailed)
          else
            (case ReadBytes es r (mReadBlockSize r) of
               Inl e \<Rightarrow> Some (Inl e)
             | Inr (r', num_read) \<Rightarrow>
                 if num_read = 0 then Some (Inr (r', p', sample_size, sample_num_read))
                 else ParseFrameSize_loop fuel es ep r' p' sample_start_offset
                        (sample_num_read + num_read)))"

text \<open>The first part: find the start of the first sample, or read one more block.\<close>

definition find_sample_start ::
  "'s EssenceSource \<Rightarrow> 'p EssenceParser \<Rightarrow> ('s, 'p) RawEssenceReader \<Rightarrow> 'p \<Rightarrow> u32 \<Rightarrow> u32 \<Rightarrow>
     bmx_exception + (('s, 'p) RawEssenceReader \<times> 'p \<times> u32 option)" where
  "find_sample_start es ep r p sample_start_offset sample_num_read =
     (if \<not> mReadFirstSample r then
        (case ReadBytes es r (mFrameStartSize r) of
           Inl e \<Rightarrow> Inl e
         | Inr (r1, n) \<Rightarrow>
             (case ParseFrameStart ep p
                     (window (mSampleBuffer r1) sample_start_offset (sample_num_read + n)) of
                (offset, p') \<Rightarrow>
                  if offset = ESSENCE_PARSER_NULL_OFFSET
                  then Inr (r1\<lparr> mLastSampleRead := True \<rparr>, p', None)
                  else if offset > 0 then
                    (case ShiftSampleData r1 sample_start_offset (sample_start_offset + offset) of
                       Inl e \<Rightarrow> Inl e
                     | Inr r2 \<Rightarrow>
                         Inr (r2\<lparr> mReadFirstSample := True \<rparr>, p',
                              Some (sample_num_read + n - offset)))
                  else Inr (r1\<lparr> mReadFirstSample := True \<rparr>, p', Some (sample_num_read + n))))
      else
        (case ReadBytes es r (mReadBlockSize r) of
           Inl e \<Rightarrow> Inl e
         | Inr (r1, n) \<Rightarrow> Inr (r1, p, Some (sample_num_read + n))))"

text \<open>The last part: what the parsed size means for the sample counters.\<close>

definition finish_sample ::
  "'s EssenceSource \<Rightarrow> 'p EssenceParser \<Rightarrow> ('s, 'p) RawEssenceReader \<Rightarrow> ParsedFrameSize \<Rightarrow> u32 \<Rightarrow>
     bmx_exception + (('s, 'p) RawEssenceReader \<times> bool)" where
  "finish_sample es ep r sample_size sample_num_read =
     (case (if IsComplete sample_size \<and> GetSize sample_size > sample_num_read
            then (case ReadBytes es r (GetSize sample_size - sample_num_read) of
                    Inl e \<Rightarrow> Inl e
                  | Inr (r1, n) \<Rightarrow> Inr (r1, sample_num_read + n))
            else Inr (r, sample_num_read)) of
        Inl e \<Rightarrow> Inl e
      | Inr (r1, sample_num_read1) \<Rightarrow>
          if IsComplete sample_size \<and> GetSize sample_size > sample_num_read
             \<and> GetSize sample_size > sample_num_read1
          then Inr (r1\<lparr> mLastSampleRead := True \<rparr>, False)
          else if IsNull sample_size then Inr (r1\<lparr> mLastSampleRead := True \<rparr>, False)
          else if IsUnknown sample_size then
            (case CompleteSize ep sample_size sample_num_read1 of
               Some completed \<Rightarrow>
                 Inr (r1\<lparr> mLastSampleRead := True,
                         mSampleDataSize := mSampleDataSize r1 + GetSize completed,
                         mNumSamples := mNumSamples r1 + 1 \<rparr>, False)
             | None \<Rightarrow> Inr (r1\<lparr> mLastSampleRead := True \<rparr>, False))
          else Inr (r1\<lparr> mSampleDataSize := mSampleDataSize r1 + GetSize sample_size,
                       mNumSamples := mNumSamples r1 + 1 \<rparr>, True))"

definition ReadAndParseSample ::
  "nat \<Rightarrow> 's EssenceSource \<Rightarrow> 'p EssenceParser \<Rightarrow> ('s, 'p) RawEssenceReader \<Rightarrow>
     (bmx_exception + (('s, 'p) RawEssenceReader \<times> bool)) option" where
  "ReadAndParseSample fuel es ep r =
     (case mEssenceParser r of
        None \<Rightarrow> Some (Inl CheckFailed)
      | Some p \<Rightarrow>
          (let sample_start_offset = mSampleDataSize r;
               sample_num_read = Buffer_GetSize (mSampleBuffer r) - sample_start_offset
           in case find_sample_start es ep r p sample_start_offset sample_num_read of
                Inl e \<Rightarrow> Some (Inl e)
              | Inr (r1, p1, None) \<Rightarrow> Some (Inr (r1\<lparr> mEssenceParser := Some p1 \<rparr>, False))
              | Inr (r1, p1, Some sample_num_read1) \<Rightarrow>
                  (case ParseFrameSize_loop fuel es ep r1 (ResetParseFrameSize ep p1)
                          sample_start_offset sample_num_read1 of
                     None \<Rightarrow> None
                   | Some (Inl e) \<Rightarrow> Some (Inl e)
                   | Some (Inr (r2, p2, sample_size, sample_num_read2)) \<Rightarrow>
                       Some (finish_sample es ep (r2\<lparr> mEssenceParser := Some p2 \<rparr>)
                               sample_size sample_num_read2))))"

subsection \<open>ReadSamples, Reset\<close>

text \<open>The \<^verbatim>\<open>for\<close> loop of \<^verbatim>\<open>ReadSamples\<close>: at most \<open>k\<close> more samples.\<close>

fun ReadSamples_loop ::
  "nat \<Rightarrow> 's EssenceSource \<Rightarrow> 'p EssenceParser \<Rightarrow> ('s, 'p) RawEssenceReader \<Rightarrow> nat \<Rightarrow>
     (bmx_exception + ('s, 'p) RawEssenceReader) option" where
  "ReadSamples_loop fuel es ep r 0 = Some (Inr r)"
| "ReadSamples_loop fuel es ep r (Suc k) =
     (case ReadAndParseSample fuel es ep r of
        None \<Rightarrow> None
      | Some (Inl e) \<Rightarrow> Some (Inl e)
      | Some (Inr (r', ok)) \<Rightarrow>
          if \<not> ok then Some (Inr r') else ReadSamples_loop fuel es ep r' k)"

definition ReadSamples ::
  "nat \<Rightarrow> 's EssenceSource \<Rightarrow> 'p EssenceParser \<Rightarrow> ('s, 'p) RawEssenceReader \<Rightarrow> u32 \<Rightarrow>
     (bmx_exception + (('s, 'p) RawEssenceReader \<times> u32)) option" where
  "ReadSamples fuel es ep r num_samples =
     (if mLastSampleRead r then Some (Inr (r, 0))
      else
        (case ShiftSampleData r 0 (mSampleDataSize r) of
           Inl e \<Rightarrow> Some (Inl e)
         | Inr r0 \<Rightarrow>
             (let r1 = r0\<lparr> mSampleDataSize := 0, mNumSamples := 0 \<rparr>
              in if mFixedSampleSize r1 = 0 then
                   (case ReadSamples_loop fuel es ep r1 (unat num_samples) of
                      None \<Rightarrow> None
                    | Some (Inl e) \<Rightarrow> Some (Inl e)
                    | Some (Inr r2) \<Rightarrow> Some (Inr (r2, mNumSamples r2)))
                 else
                   (case ReadBytes es r1
                           (mFixedSampleSize r1 * num_samples - Buffer_GetSize (mSampleBuffer r1)) of
                      Inl e \<Rightarrow> Some (Inl e)
                    | Inr (r2, n) \<Rightarrow>
                        (let r3 = (if Buffer_GetSize (mSampleBuffer r2)
                                        < mFixedSampleSize r2 * num_samples
                                   then r2\<lparr> mLastSampleRead := True \<rparr> else r2);
                             r4 = r3\<lparr> mNumSamples :=
                                        Buffer_GetSize (mSampleBuffer r3) div mFixedSampleSize r3 \<rparr>;
                             r5 = r4\<lparr> mSampleBuffer :=
                                        Buffer_SetSize (mSampleBuffer r4)
                                          (mNumSamples r4 * mFixedSampleSize r4) \<rparr>;
                             r6 = r5\<lparr> mSampleDataSize := mNumSamples r5 * mFixedSampleSize r5 \<rparr>
                         in Some (Inr (r6, mNumSamples r6)))))))"

definition Reset ::
  "'s EssenceSource \<Rightarrow> ('s, 'p) RawEssenceReader \<Rightarrow> bmx_exception + ('s, 'p) RawEssenceReader" where
  "Reset es r =
     (case src_SeekStart es (mEssenceSource r) of
        (ok, s') \<Rightarrow>
          if \<not> ok then Inl BMXException
          else Inr (r\<lparr> mEssenceSource := s',
                      mTotalReadLength := 0,
                      mSampleBuffer := Buffer_SetSize (mSampleBuffer r) 0,
                      mSampleDataSize := 0,
                      mNumSamples := 0,
                      mReadFirstSample := False,
                      mLastSampleRead := False \<rparr>))"

subsection \<open>Setters and sequences of calls\<close>

definition SetMaxReadLength :: "('s, 'p) RawEssenceReader \<Rightarrow> int \<Rightarrow> ('s, 'p) RawEssenceReader" where
  "SetMaxReadLength r len = r\<lparr> mMaxReadLength := len \<rparr>"

definition SetFrameStartSize ::
  "('s, 'p) RawEssenceReader \<Rightarrow> int \<Rightarrow> bmx_exception + ('s, 'p) RawEssenceReader" where
  "SetFrameStartSize r len =
     (if \<not> len \<le> 0xffffffff then Inl CheckFailed
      else Inr (r\<lparr> mFrameStartSize := word_of_int len \<rparr>))"

definition SetReadBlockSize ::
  "('s, 'p) RawEssenceReader \<Rightarrow> int \<Rightarrow> bmx_exception + ('s, 'p) RawEssenceReader" where
  "SetReadBlockSize r len =
     (if \<not> len \<le> 0xffffffff then Inl CheckFailed
      else Inr (r\<lparr> mReadBlockSize := word_of_int len \<rparr>))"

definition SetFixedSampleSize :: "('s, 'p) RawEssenceReader \<Rightarrow> u32 \<Rightarrow> ('s, 'p) RawEssenceReader" where
  "SetFixedSampleSize r sz = r\<lparr> mFixedSampleSize := sz \<rparr>"

definition SetEssenceParser ::
  "('s, 'p) RawEssenceReader \<Rightarrow> 'p option \<Rightarrow> ('s, 'p) RawEssenceReader" where
  "SetEssenceParser r essence_parser = r\<lparr> mEssenceParser := essence_parser \<rparr>"

definition SetCheckMaxSampleSize :: "('s, 'p) RawEssenceReader \<Rightarrow> u32 \<Rightarrow> ('s, 'p) RawEssenceReader" where
  "SetCheckMaxSampleSize r sz = r\<lparr> mMaxSampleSize := sz \<rparr>"

text \<open>
  A call of one of the reader's member functions, and a run of calls one after the other;
  a run ends at the first exception, and is \<open>None\<close> when a parse loop is out of fuel.
\<close>

datatype 'p raw_call =
    Call_SetMaxReadLength int
  | Call_SetFrameStartSize int
  | Call_SetReadBlockSize int
  | Call_SetFixedSampleSize u32
  | Call_SetEssenceParser "'p option"
  | Call_SetCheckMaxSampleSize u32
  | Call_ReadSamples u32
  | Call_Reset
  | Call_ReadBytes u32
  | Call_AppendBytes "nat \<Rightarrow> byte" u32
  | Call_ShiftSampleData u32 u32

fun drop_result :: "('e + ('a \<times> 'b)) \<Rightarrow> 'e + 'a" where
  "drop_result (Inl e) = Inl e"
| "drop_result (Inr (a, b)) = Inr a"

fun do_call ::
  "nat \<Rightarrow> 's EssenceSource \<Rightarrow> 'p EssenceParser \<Rightarrow> ('s, 'p) RawEssenceReader \<Rightarrow> 'p raw_call \<Rightarrow>
     (bmx_exception + ('s, 'p) RawEssenceReader) option" where
  "do_call fuel es ep r (Call_SetMaxReadLength len) = Some (Inr (SetMaxReadLength r len))"
| "do_call fuel es ep r (Call_SetFrameStartSize len) = Some (SetFrameStartSize r len)"
| "do_call fuel es ep r (Call_SetReadBlockSize len) = Some (SetReadBlockSize r len)"
| "do_call fuel es ep r (Call_SetFixedSampleSize sz) = Some (Inr (SetFixedSampleSize r sz))"
| "do_call fuel es ep r (Call_SetEssenceParser p) = Some (Inr (SetEssenceParser r p))"
| "do_call fuel es ep r (Call_SetCheckMaxSampleSize sz) = Some (Inr (SetCheckMaxSampleSize r sz))"
| "do_call fuel es ep r (Call_ReadSamples n) = map_option drop_result (ReadSamples fuel es ep r n)"
| "do_call fuel es ep r Call_Reset = Some (Reset es r)"
| "do_call fuel es ep r (Call_ReadBytes sz) = Some (drop_result (ReadBytes es r sz))"
| "do_call fuel es ep r (Call_AppendBytes bytes sz) = Some (drop_result (AppendBytes r bytes sz))"
| "do_call fuel es ep r (Call_ShiftSampleData to_offset from_offset) =
     Some (ShiftSampleData r to_offset from_offset)"

fun run_calls ::
  "nat \<Rightarrow> 's EssenceSource \<Rightarrow> 'p EssenceParser \<Rightarrow> ('s, 'p) RawEssenceReader \<Rightarrow> 'p raw_call list \<Rightarrow>
     (bmx_exception + ('s, 'p) RawEssenceReader) option" where
  "run_calls fuel es ep r [] = Some (Inr r)"
| "run_calls fuel es ep r (c # cs) =
     (case do_call fuel es ep r c of
        None \<Rightarrow> None
      | Some (Inl e) \<Rightarrow> Some (Inl e)
      | Some (Inr r') \<Rightarrow> run_calls fuel es ep r' cs)"

text \<open>
  What every member function but \<^verbatim>\<open>Reset\<close> and \<^verbatim>\<open>SetMaxReadLength\<close> keeps: the cap, a set
  last-sample flag, and a total within a positive cap.
\<close>

definition kept :: "('s, 'p) RawEssenceReader \<Rightarrow> ('s, 'p) RawEssenceReader \<Rightarrow> bool" where
  "kept r r' \<longleftrightarrow>
     mMaxReadLength r' = mMaxReadLength r \<and>
     (mLastSampleRead r \<longrightarrow> mLastSampleRead r') \<and>
     (0 < mMaxReadLength r \<and> mTotalReadLength r \<le> mMaxReadLength r
        \<longrightarrow> mTotalReadLength r' \<le> mMaxReadLength r)"

subsection \<open>A source and a parser to run the reader on\<close>

text \<open>
  A source over a list of bytes: the state is the bytes still to come and the whole
  stream; a read delivers what is asked for, or what is left.
\<close>

definition list_source :: "(byte list \<times> byte list) EssenceSource" where
  "list_source =
     \<lparr> src_Read = (\<lambda>(rest, whole) n. (take (unat n) rest, (drop (unat n) rest, whole))),
       src_SeekStart = (\<lambda>(rest, whole). (True, (whole, whole))) \<rparr>"

text \<open>A parser for frames of a fixed number of bytes; it has no state.\<close>

definition fixed_parser :: "u32 \<Rightarrow> unit EssenceParser" where
  "fixed_parser n =
     \<lparr> ParseFrameStart = (\<lambda>p b. (if b = [] then ESSENCE_PARSER_NULL_OFFSET else 0, p)),
       ResetParseFrameSize = (\<lambda>p. p),
       ParseFrameSize2 = (\<lambda>p b. (if length b < unat n then Unknown else Frame n, p)),
       CompleteSize = (\<lambda>s available. None) \<rparr>"

definition ten_bytes :: "byte list" where
  "ten_bytes = [0, 1, 2, 3, 4, 5, 6, 7, 8, 9]"

definition fixed4_reader :: "(byte list \<times> byte list, unit) RawEssenceReader" where
  "fixed4_reader = SetFixedSampleSize (RawEssenceReader_new (ten_bytes, ten_bytes)) 4"

definition is_budget_call :: "'p raw_call \<Rightarrow> bool" where
  "is_budget_call c =
     (case c of Call_ReadBytes sz \<Rightarrow> True | Call_AppendBytes bytes sz \<Rightarrow> True | _ \<Rightarrow> False)"

text \<open>
  \<open>fixed4_reader\<close> after \<^verbatim>\<open>ReadSamples(5)\<close>: the ten bytes are read, two whole samples are
  kept and the last-sample flag is set.
\<close>

definition drained_reader :: "(byte list \<times> byte list, unit) RawEssenceReader" where
  "drained_reader =
     \<lparr> mEssenceSource = ([], ten_bytes),
       mMaxReadLength = 0,
       mTotalReadLength = 10,
       mMaxSampleSize = 0,
       mFixedSampleSize = 4,
       mEssenceParser = None,
       mSampleBuffer = [0, 1, 2, 3, 4, 5, 6, 7],
       mSampleDataSize = 8,
       mNumSamples = 2,
       mFrameStartSize = PARSE_FRAME_START_SIZE,
       mReadBlockSize = READ_BLOCK_SIZE,
       mReadFirstSample = False,
       mLastSampleRead = True \<rparr>"

text \<open>A reader with a cap of six bytes, and the same reader with the cap used up.\<close>

definition capped_reader :: "(byte list \<times> byte list, unit) RawEssenceReader" where
  "capped_reader = SetMaxReadLength (RawEssenceReader_new (ten_bytes, ten_bytes)) 6"

definition full_reader :: "(byte list \<times> byte list, unit) RawEssenceReader" where
  "full_reader = (capped_reader :: (byte list \<times> byte list, unit) RawEssenceReader)\<lparr> mTotalReadLength := 6 \<rparr>"

definition budget_calls :: "unit raw_call list" where
  "budget_calls = [Call_ReadBytes 4, Call_AppendBytes (\<lambda>i. 7) 1, Call_ReadBytes 4, Call_ReadBytes 4]"

definition flagged_calls :: "unit raw_call list" where
  "flagged_calls = [Call_SetFixedSampleSize 2, Call_ReadSamples 3, Call_ReadBytes 1, Call_SetMaxReadLength 5]"


section \<open>MXFFileReader (src/src/mxf_reader/MXFFileReader.cpp)\<close>

subsection \<open>Track information and track readers\<close>

text \<open>
  \<^verbatim>\<open>int64_t\<close> positions, durations and offsets are integers (they count edit units), and
  \<^verbatim>\<open>uint32_t\<close> track numbers, track ids and sample counts are 32-bit words. A
  \<^verbatim>\<open>Rational\<close> is a pair of integers. \<open>data_def\<close> is the value of the \<^verbatim>\<open>MXFDataDefEnum\<close>
  enumerator, which the source compares with \<^verbatim>\<open><\<close>.
\<close>

record Rational =
  numerator :: int
  denominator :: int

datatype EssenceType =
    MPEG2LG_422P_ML_576I | MPEG2LG_MP_ML_576I | MPEG2LG_422P_HL_1080I | MPEG2LG_422P_HL_1080P
  | MPEG2LG_422P_HL_720P | MPEG2LG_MP_HL_1920_1080I | MPEG2LG_MP_HL_1920_1080P
  | MPEG2LG_MP_HL_1440_1080I | MPEG2LG_MP_HL_1440_1080P | MPEG2LG_MP_HL_720P
  | MPEG2LG_MP_H14_1080I | MPEG2LG_MP_H14_1080P
  | AVC_BASELINE | AVC_CONSTRAINED_BASELINE | AVC_MAIN | AVC_EXTENDED | AVC_HIGH
  | AVC_HIGH_10 | AVC_HIGH_422 | AVC_HIGH_444
  | TIMED_TEXT
  | OTHER_ESSENCE_TYPE nat

record MXFTrackInfo =
  data_def :: int
  material_track_id :: u32
  material_track_number :: u32
  file_track_id :: u32
  file_track_number :: u32
  edit_rate :: Rational
  duration :: int
  lead_filler_offset :: int
  essence_type :: EssenceType

text \<open>
  A track reader: the object it is (track readers are compared as pointers; it is a track
  reader of this file or of another file), its track
  info (\<^verbatim>\<open>GetTrackInfo()\<close>), whether it is enabled
  (\<^verbatim>\<open>IsEnabled()\<close>), the edit rate and position it reports (\<^verbatim>\<open>GetEditRate()\<close>,
  \<^verbatim>\<open>GetPosition()\<close>), whether it is a timed text track reader, and the calls its frame
  buffer has received from the file reader, latest last.
\<close>

datatype frame_buffer_call =
    FB_StartRead
  | FB_CompleteRead
  | FB_AbortRead
  | FB_SetNextFramePosition Rational int
  | FB_SetNextFrameTrackPosition Rational int

datatype track_object = ThisFile nat | OtherFile nat nat

record MXFTrackReader =
  track_object :: track_object
  track_info :: MXFTrackInfo
  track_enabled :: bool
  track_edit_rate :: Rational
  track_position :: int
  is_timed_text_reader :: bool
  frame_buffer :: "frame_buffer_call list"

datatype Rounding = ROUND_AUTO | ROUND_UP

subsection \<open>Collaborators of the file reader\<close>

text \<open>
  The functions of \<^verbatim>\<open>bmx/Utils.h\<close> that the file reader calls are declared outside these
  sources; they are parameters. The conversions with a sample sequence take the sequence
  and its size; the two \<open>_at\<close> functions are the overloads that also take a start position.
\<close>

record Utils =
  convert_position :: "Rational \<Rightarrow> int \<Rightarrow> Rational \<Rightarrow> Rounding \<Rightarrow> int"
  convert_duration :: "Rational \<Rightarrow> int \<Rightarrow> Rational \<Rightarrow> Rounding \<Rightarrow> int"
  convert_duration_higher :: "int \<Rightarrow> u32 list \<Rightarrow> int \<Rightarrow> int"
  convert_duration_lower :: "int \<Rightarrow> u32 list \<Rightarrow> int \<Rightarrow> int"
  convert_position_higher :: "int \<Rightarrow> u32 list \<Rightarrow> int \<Rightarrow> int"
  convert_position_lower :: "int \<Rightarrow> u32 list \<Rightarrow> int \<Rightarrow> int"
  convert_duration_higher_at :: "int \<Rightarrow> int \<Rightarrow> u32 list \<Rightarrow> int \<Rightarrow> int"
  convert_duration_lower_at :: "int \<Rightarrow> int \<Rightarrow> u32 list \<Rightarrow> int \<Rightarrow> int"
  get_sample_sequence :: "Rational \<Rightarrow> Rational \<Rightarrow> u32 list option"
  get_sequence_size :: "u32 list \<Rightarrow> int"

text \<open>
  An index entry (\<^verbatim>\<open>MXFIndexEntryExt\<close>): the two \<^verbatim>\<open>int8_t\<close> offsets, read with \<open>sint\<close>.
\<close>

record MXFIndexEntryExt =
  temporal_offset :: "8 word"
  key_frame_offset :: "8 word"

text \<open>
  The essence reader (class \<^verbatim>\<open>EssenceReader\<close>) as the file reader uses it: its position
  (\<^verbatim>\<open>GetPosition\<close>, set by \<^verbatim>\<open>Seek\<close>), the index entry at a position if there is one
  (\<^verbatim>\<open>GetIndexEntry\<close>), the legal position nearest to a position (\<^verbatim>\<open>LegitimisePosition\<close>)
  and whether it is complete (\<^verbatim>\<open>IsComplete\<close>).
\<close>

record EssenceReader =
  er_position :: int
  er_index_entry :: "int \<Rightarrow> MXFIndexEntryExt option"
  er_legitimise :: "int \<Rightarrow> int"
  er_complete :: bool

definition EssenceReader_Seek :: "EssenceReader \<Rightarrow> int \<Rightarrow> EssenceReader" where
  "EssenceReader_Seek e position = e\<lparr> er_position := position \<rparr>"

text \<open>
  An external reader is another \<^verbatim>\<open>MXFFileReader\<close>, reached through a pointer. This is what
  the file reader asks of it: \<^verbatim>\<open>IsEnabled\<close>, \<^verbatim>\<open>GetEditRate\<close>, \<^verbatim>\<open>GetDuration\<close>,
  \<^verbatim>\<open>GetOrigin\<close>, \<^verbatim>\<open>GetPosition\<close> (set by \<^verbatim>\<open>Seek\<close>), \<^verbatim>\<open>ReadError\<close>, \<^verbatim>\<open>IsComplete\<close>,
  \<^verbatim>\<open>GetMaxPrecharge\<close>, \<^verbatim>\<open>GetMaxRollout\<close> and \<^verbatim>\<open>GetReadLimits(true, ..)\<close>. The sample
  sequence and its size, which the source keeps in two vectors beside the vector of
  readers, are kept with the reader.
\<close>

record ExternalReader =
  x_object :: nat
  x_enabled :: bool
  x_edit_rate :: Rational
  x_duration :: int
  x_origin :: int
  x_position :: int
  x_read_error :: bool
  x_complete :: bool
  x_max_precharge :: "int \<Rightarrow> bool \<Rightarrow> bmx_exception + 16 word"
  x_max_rollout :: "int \<Rightarrow> bool \<Rightarrow> bmx_exception + 16 word"
  x_read_limits :: "bmx_exception + (int \<times> int)"
  x_sample_sequence :: "u32 list"
  x_sample_sequence_size :: int

definition ExternalReader_Seek :: "ExternalReader \<Rightarrow> int \<Rightarrow> ExternalReader" where
  "ExternalReader_Seek x position = x\<lparr> x_position := position \<rparr>"

subsection \<open>The file reader's state\<close>

text \<open>
  \<open>mTrackReaders\<close> and \<open>mInternalTrackReaders\<close> hold track readers by value; in the source
  both vectors point to the same objects. \<open>mEssenceReader\<close> is \<open>None\<close> for the null
  pointer.
\<close>

record MXFFileReader =
  mEditRate :: Rational
  mDuration :: int
  mOrigin :: int
  mFileOrigin :: int
  mTrackReaders :: "MXFTrackReader list"
  mInternalTrackReaders :: "MXFTrackReader list"
  mExternalReaders :: "ExternalReader list"
  mExternalTrackReaders :: "MXFTrackReader list"
  mEssenceReader :: "EssenceReader option"
  mReadError :: bool
  mRequireFrameInfoCount :: u32

definition ZERO_RATIONAL :: Rational where
  "ZERO_RATIONAL = \<lparr> numerator = 0, denominator = 0 \<rparr>"

text \<open>The reader as the constructor leaves it, for the fields above.\<close>

definition MXFFileReader_new :: MXFFileReader where
  "MXFFileReader_new =
     \<lparr> mEditRate = ZERO_RATIONAL, mDuration = -1, mOrigin = 0, mFileOrigin = 0,
       mTrackReaders = [], mInternalTrackReaders = [], mExternalReaders = [],
       mExternalTrackReaders = [], mEssenceReader = None, mReadError = False,
       mRequireFrameInfoCount = 0 \<rparr>"

subsection \<open>Track ordering: compare\_track\_reader and std::stable\_sort\<close>

definition compare_track_reader :: "MXFTrackReader \<Rightarrow> MXFTrackReader \<Rightarrow> bool" where
  "compare_track_reader left_reader right_reader =
     (let left = track_info left_reader; right = track_info right_reader
      in if data_def left \<noteq> data_def right then data_def left < data_def right
         else if material_track_number left \<noteq> 0
           then material_track_number right = 0 \<or>
                material_track_number left < material_track_number right
         else if material_track_number right \<noteq> 0 then False
         else if material_track_id left \<noteq> 0
           then material_track_id right = 0 \<or> material_track_id left < material_track_id right
         else material_track_id right = 0)"

text \<open>
  \<^verbatim>\<open>std::stable_sort\<close> is the C++ library's. For a comparison that is a strict weak
  ordering its result is determined: the sorted arrangement in which elements that the
  comparison does not order keep their relative order. \<open>stable_sort\<close> computes it by
  insertion: an element goes in front of the sorted rest, after the elements that
  compare less than it.
\<close>

fun insert_after_less :: "('a \<Rightarrow> 'a \<Rightarrow> bool) \<Rightarrow> 'a \<Rightarrow> 'a list \<Rightarrow> 'a list" where
  "insert_after_less lt x [] = [x]"
| "insert_after_less lt x (y # ys) =
     (if lt y x then y # insert_after_less lt x ys else x # y # ys)"

fun stable_sort :: "('a \<Rightarrow> 'a \<Rightarrow> bool) \<Rightarrow> 'a list \<Rightarrow> 'a list" where
  "stable_sort lt [] = []"
| "stable_sort lt (x # xs) = insert_after_less lt x (stable_sort lt xs)"




definition picture_track :: "u32 \<Rightarrow> u32 \<Rightarrow> MXFTrackReader" where
  "picture_track number tid =
     \<lparr> track_object = ThisFile (unat tid),
       track_info =
         \<lparr> data_def = 1, material_track_id = tid, material_track_number = number,
           file_track_id = tid, file_track_number = 1,
           edit_rate = \<lparr> numerator = 25, denominator = 1 \<rparr>,
           duration = 100, lead_filler_offset = 0, essence_type = OTHER_ESSENCE_TYPE 0 \<rparr>,
       track_enabled = True,
       track_edit_rate = \<lparr> numerator = 25, denominator = 1 \<rparr>,
       track_position = 0,
       is_timed_text_reader = False,
       frame_buffer = [] \<rparr>"

subsection \<open>GetFixedLeadFillerOffset\<close>

text \<open>The loop carries \<open>fixed_offset\<close> and the index \<open>i\<close>.\<close>

fun GetFixedLeadFillerOffset_loop ::
  "Utils \<Rightarrow> Rational \<Rightarrow> int \<Rightarrow> nat \<Rightarrow> MXFTrackReader list \<Rightarrow> int" where
  "GetFixedLeadFillerOffset_loop u clip_rate fixed_offset i [] = fixed_offset"
| "GetFixedLeadFillerOffset_loop u clip_rate fixed_offset i (t # ts) =
     (let offset = convert_position u (edit_rate (track_info t))
                     (lead_filler_offset (track_info t)) clip_rate ROUND_UP
      in if i = 0
         then GetFixedLeadFillerOffset_loop u clip_rate offset (i + 1) ts
         else if fixed_offset \<noteq> offset then 0
         else GetFixedLeadFillerOffset_loop u clip_rate fixed_offset (i + 1) ts)"

definition GetFixedLeadFillerOffset :: "Utils \<Rightarrow> MXFFileReader \<Rightarrow> int" where
  "GetFixedLeadFillerOffset u r =
     GetFixedLeadFillerOffset_loop u (mEditRate r) 0 0 (mTrackReaders r)"

text \<open>The lead filler offset of a track in the clip edit rate.\<close>

definition converted_offset :: "Utils \<Rightarrow> MXFFileReader \<Rightarrow> MXFTrackReader \<Rightarrow> int" where
  "converted_offset u r t =
     convert_position u (edit_rate (track_info t)) (lead_filler_offset (track_info t))
       (mEditRate r) ROUND_UP"

text \<open>
  Conversions to run the functions on: between edit rates by exact scaling, rounded up
  for \<^verbatim>\<open>ROUND_UP\<close> and down otherwise; with a sample sequence as the specification
  describes them, a position or duration at the lower rate (the clip's) standing for
  whole sequence elements at the higher rate.
\<close>

definition scale_rate :: "Rational \<Rightarrow> int \<Rightarrow> Rational \<Rightarrow> Rounding \<Rightarrow> int" where
  "scale_rate in_rate pos out_rate rounding =
     (if rounding = ROUND_UP
      then - ((- (pos * numerator out_rate * denominator in_rate))
                div (denominator out_rate * numerator in_rate))
      else (pos * numerator out_rate * denominator in_rate)
             div (denominator out_rate * numerator in_rate))"

definition sequence_sum :: "u32 list \<Rightarrow> int" where
  "sequence_sum s = (\<Sum>x\<leftarrow>s. uint x)"

definition position_higher :: "int \<Rightarrow> u32 list \<Rightarrow> int \<Rightarrow> int" where
  "position_higher p s sz =
     (p div int (length s)) * sz + sequence_sum (take (nat (p mod int (length s))) s)"

fun elements_within :: "int \<Rightarrow> u32 list \<Rightarrow> nat" where
  "elements_within remainder [] = 0"
| "elements_within remainder (x # xs) =
     (if remainder \<ge> uint x then Suc (elements_within (remainder - uint x) xs) else 0)"

definition position_lower :: "int \<Rightarrow> u32 list \<Rightarrow> int \<Rightarrow> int" where
  "position_lower p s sz =
     (p div sz) * int (length s) + int (elements_within (p mod sz) s)"

definition example_utils :: Utils where
  "example_utils =
     \<lparr> convert_position = scale_rate,
       convert_duration = scale_rate,
       convert_duration_higher = position_higher,
       convert_duration_lower = position_lower,
       convert_position_higher = position_higher,
       convert_position_lower = position_lower,
       convert_duration_higher_at =
         (\<lambda>d p s sz. position_higher (p + d) s sz - position_higher p s sz),
       convert_duration_lower_at =
         (\<lambda>d p s sz. position_lower (p + d) s sz - position_lower p s sz),
       get_sample_sequence =
         (\<lambda>lower higher.
            if numerator lower > 0 \<and> denominator lower > 0 \<and> denominator higher > 0 \<and>
               (numerator higher * denominator lower) mod (denominator higher * numerator lower) = 0
            then Some [word_of_int ((numerator higher * denominator lower)
                                      div (denominator higher * numerator lower))]
            else None),
       get_sequence_size = sequence_sum \<rparr>"

definition sound_track :: "int \<Rightarrow> MXFTrackReader" where
  "sound_track filler =
     \<lparr> track_object = ThisFile 100,
       track_info =
         \<lparr> data_def = 2, material_track_id = 2, material_track_number = 1,
           file_track_id = 2, file_track_number = 1,
           edit_rate = \<lparr> numerator = 48000, denominator = 1 \<rparr>,
           duration = 192000, lead_filler_offset = filler,
           essence_type = OTHER_ESSENCE_TYPE 1 \<rparr>,
       track_enabled = True,
       track_edit_rate = \<lparr> numerator = 48000, denominator = 1 \<rparr>,
       track_position = 0,
       is_timed_text_reader = False,
       frame_buffer = [] \<rparr>"

definition picture_track_filler :: "int \<Rightarrow> MXFTrackReader" where
  "picture_track_filler filler =
     (picture_track 1 1)\<lparr> track_info := (track_info (picture_track 1 1))\<lparr> lead_filler_offset := filler \<rparr> \<rparr>"

definition er25 :: Rational where
  "er25 = \<lparr> numerator = 25, denominator = 1 \<rparr>"

definition er48k :: Rational where
  "er48k = \<lparr> numerator = 48000, denominator = 1 \<rparr>"

definition filler_reader :: "int \<Rightarrow> int \<Rightarrow> MXFFileReader" where
  "filler_reader picture_filler sound_filler =
     MXFFileReader_new\<lparr> mEditRate := er25,
       mTrackReaders := [picture_track_filler picture_filler, sound_track sound_filler] \<rparr>"



subsection \<open>ProcessMetadata: what the header metadata gives for a material package track\<close>

text \<open>
  The header metadata (packages, tracks, sequences, source clips, descriptors) and the
  package resolver are libraries outside these sources. \<^verbatim>\<open>ProcessMetadata\<close> walks the
  material package's tracks; what the walk finds for one track is a \<open>MaterialTrack\<close>:
  \<^item> \<open>Ignored\<close>: not a picture, sound or data track (\<^verbatim>\<open>continue\<close>);
  \<^item> \<open>Skipped\<close>: no source clip, or the source clip does not resolve (counted, \<^verbatim>\<open>continue\<close>);
  \<^item> \<open>Rejected e\<close>: one of the checks on the track raises \<open>e\<close>;
  \<^item> \<open>InternalEssence mp fsp\<close>: the essence is in this file, \<open>fsp\<close> is the file source
    package track;
  \<^item> \<open>ExternalEssence mp x\<close>: the essence is in another file; \<open>x\<close> is the external file
    reader and its track reader that \<^verbatim>\<open>GetExternalTrackReader\<close> resolves, if any.
\<close>

record MPTrack =
  mp_track_id :: u32
  mp_track_number :: u32
  mp_edit_rate :: Rational
  mp_start_position :: int
  mp_duration :: int
  mp_data_def :: int
  mp_lead_filler_offset :: int

text \<open>
  \<open>fsp_file_descriptor\<close> is the result of \<^verbatim>\<open>GetFileDescriptor\<close>: \<open>None\<close> when no file
  descriptor is found for the track, else the essence type that the descriptor gives.
\<close>

record FSPTrack =
  fsp_edit_rate :: Rational
  fsp_origin :: int
  fsp_track_id :: u32
  fsp_track_number :: u32
  fsp_file_descriptor :: "EssenceType option"

datatype MaterialTrack =
    Ignored
  | Skipped
  | Rejected bmx_exception
  | InternalEssence MPTrack FSPTrack
  | ExternalEssence MPTrack "(ExternalReader \<times> MXFTrackReader) option"

subsection \<open>CreateInternalTrackReader, GetExternalTrackReader\<close>

text \<open>
  The clip edit rate is set or checked first; the function returns 0 (\<open>None\<close>) after that
  when the track has no file descriptor. The processing of the descriptors is left out.
\<close>

definition CreateInternalTrackReader ::
  "Utils \<Rightarrow> MXFFileReader \<Rightarrow> MPTrack \<Rightarrow> FSPTrack \<Rightarrow>
     bmx_exception + (MXFFileReader \<times> MXFTrackReader option)" where
  "CreateInternalTrackReader u r mp fsp =
     (if numerator (mEditRate r) \<noteq> 0 \<and> mEditRate r \<noteq> fsp_edit_rate fsp then Inl BMXException
      else
        (let r1 = (if numerator (mEditRate r) = 0 then r\<lparr> mEditRate := fsp_edit_rate fsp \<rparr> else r)
         in if fsp_origin fsp < 0 then Inl ResultNotSupported
            else
              (let origin =
                     (if mp_start_position mp > 0
                      then fsp_origin fsp +
                           convert_position u (mp_edit_rate mp) (mp_start_position mp)
                             (fsp_edit_rate fsp) ROUND_AUTO
                      else fsp_origin fsp)
               in case fsp_file_descriptor fsp of
                    None \<Rightarrow> Inr (r1, None)
                  | Some et \<Rightarrow>
                      if fsp_track_number fsp = 0 then Inl CheckFailed
                      else if et = TIMED_TEXT \<and> origin \<noteq> 0 then Inl ResultNotSupported
                      else if et \<noteq> TIMED_TEXT \<and> mInternalTrackReaders r1 \<noteq> [] \<and>
                              origin \<noteq> mFileOrigin r1
                      then Inl ResultNotSupported
                      else
                        (let r2 = (if et = TIMED_TEXT then r1 else r1\<lparr> mFileOrigin := origin \<rparr>);
                             track_reader =
                               \<lparr> track_object = ThisFile (length (mInternalTrackReaders r2)),
                                 track_info =
                                   \<lparr> data_def = mp_data_def mp,
                                     material_track_id = mp_track_id mp,
                                     material_track_number = mp_track_number mp,
                                     file_track_id = fsp_track_id fsp,
                                     file_track_number = fsp_track_number fsp,
                                     edit_rate = mp_edit_rate mp,
                                     duration = mp_duration mp,
                                     lead_filler_offset = 0,
                                     essence_type = et \<rparr>,
                                 track_enabled = True,
                                 track_edit_rate = mEditRate r2,
                                 track_position = 0,
                                 is_timed_text_reader = (et = TIMED_TEXT),
                                 frame_buffer = [] \<rparr>
                         in Inr (r2\<lparr> mInternalTrackReaders :=
                                       mInternalTrackReaders r2 @ [track_reader] \<rparr>,
                                 Some track_reader)))))"

definition GetExternalTrackReader ::
  "MXFFileReader \<Rightarrow> (ExternalReader \<times> MXFTrackReader) option \<Rightarrow>
     bmx_exception + (MXFFileReader \<times> MXFTrackReader option)" where
  "GetExternalTrackReader r resolved =
     (case resolved of
        None \<Rightarrow> Inr (r, None)
      | Some (file_reader, external_track_reader) \<Rightarrow>
          if list_ex (\<lambda>t. track_object t = track_object external_track_reader) (mTrackReaders r)
          then Inl ResultNotSupported
          else
            (let r1 = (if list_ex (\<lambda>x. x_object x = x_object file_reader) (mExternalReaders r)
                       then r
                       else r\<lparr> mExternalReaders := mExternalReaders r @ [file_reader] \<rparr>)
             in Inr (r1\<lparr> mExternalTrackReaders :=
                            mExternalTrackReaders r1 @ [external_track_reader] \<rparr>,
                     Some external_track_reader)))"

subsection \<open>ProcessMetadata: the track loop\<close>

definition set_lead_filler_offset :: "MXFTrackReader \<Rightarrow> int \<Rightarrow> MXFTrackReader" where
  "set_lead_filler_offset t offset =
     t\<lparr> track_info := (track_info t)\<lparr> lead_filler_offset := offset \<rparr> \<rparr>"

text \<open>
  The external track's material package info is changed to this file's. An internal track
  reader gets its lead filler offset after it is created; the source writes it through
  the pointer that both vectors hold, here it is written to both copies.
\<close>

definition reparent_external_track :: "MXFTrackReader \<Rightarrow> MPTrack \<Rightarrow> MXFTrackReader" where
  "reparent_external_track t mp =
     t\<lparr> track_info := (track_info t)
          \<lparr> material_track_id := mp_track_id mp,
            material_track_number := mp_track_number mp,
            edit_rate := mp_edit_rate mp,
            duration := mp_duration mp,
            lead_filler_offset := mp_lead_filler_offset mp \<rparr> \<rparr>"

fun ProcessMetadata_tracks ::
  "Utils \<Rightarrow> MXFFileReader \<Rightarrow> MaterialTrack list \<Rightarrow> bmx_exception + MXFFileReader" where
  "ProcessMetadata_tracks u r [] =
     (if mTrackReaders r = [] then Inl ResultNoEssence else Inr r)"
| "ProcessMetadata_tracks u r (Ignored # ts) = ProcessMetadata_tracks u r ts"
| "ProcessMetadata_tracks u r (Skipped # ts) = ProcessMetadata_tracks u r ts"
| "ProcessMetadata_tracks u r (Rejected e # ts) = Inl e"
| "ProcessMetadata_tracks u r (ExternalEssence mp resolved # ts) =
     (case GetExternalTrackReader r resolved of
        Inl e \<Rightarrow> Inl e
      | Inr (r1, None) \<Rightarrow> ProcessMetadata_tracks u r1 ts
      | Inr (r1, Some track_reader) \<Rightarrow>
          ProcessMetadata_tracks u
            (r1\<lparr> mTrackReaders :=
                   mTrackReaders r1 @ [reparent_external_track track_reader mp],
                 mExternalTrackReaders :=
                   butlast (mExternalTrackReaders r1) @ [reparent_external_track track_reader mp] \<rparr>)
            ts)"
| "ProcessMetadata_tracks u r (InternalEssence mp fsp # ts) =
     (case CreateInternalTrackReader u r mp fsp of
        Inl e \<Rightarrow> Inl e
      | Inr (r1, None) \<Rightarrow> ProcessMetadata_tracks u r1 ts
      | Inr (r1, Some track_reader) \<Rightarrow>
          ProcessMetadata_tracks u
            (r1\<lparr> mTrackReaders :=
                   mTrackReaders r1 @ [set_lead_filler_offset track_reader (mp_lead_filler_offset mp)],
                 mInternalTrackReaders :=
                   butlast (mInternalTrackReaders r1)
                     @ [set_lead_filler_offset track_reader (mp_lead_filler_offset mp)] \<rparr>)
            ts)"

subsection \<open>ProcessMetadata: the clip edit rate\<close>

text \<open>
  The lowest external edit rate is found by comparing \<^verbatim>\<open>float\<close> quotients. The type of
  the floats, the division of two \<^verbatim>\<open>int32_t\<close> as floats and the constant \<^verbatim>\<open>1000000.0\<close>
  are parameters.
\<close>

record 'f FloatOps =
  float_div :: "int \<Rightarrow> int \<Rightarrow> 'f"
  float_1000000 :: 'f

fun lowest_edit_rate_loop ::
  "('f::linorder) FloatOps \<Rightarrow> Rational \<Rightarrow> 'f \<Rightarrow> MXFTrackReader list \<Rightarrow> Rational" where
  "lowest_edit_rate_loop fo clip_rate lowest_edit_rate [] = clip_rate"
| "lowest_edit_rate_loop fo clip_rate lowest_edit_rate (t # ts) =
     (let rate = float_div fo (numerator (track_edit_rate t)) (denominator (track_edit_rate t))
      in if rate < lowest_edit_rate
         then lowest_edit_rate_loop fo (track_edit_rate t) rate ts
         else lowest_edit_rate_loop fo clip_rate lowest_edit_rate ts)"

definition set_clip_edit_rate ::
  "('f::linorder) FloatOps \<Rightarrow> MXFFileReader \<Rightarrow> bmx_exception + MXFFileReader" where
  "set_clip_edit_rate fo r =
     (if \<not> (numerator (mEditRate r) \<noteq> 0 \<or> mInternalTrackReaders r = []) then Inl AssertFailed
      else if numerator (mEditRate r) = 0 then
        (let r1 = r\<lparr> mEditRate :=
                      lowest_edit_rate_loop fo (mEditRate r) (float_1000000 fo) (mTrackReaders r) \<rparr>
         in if \<not> numerator (mEditRate r1) \<noteq> 0 then Inl CheckFailed else Inr r1)
      else Inr r)"

subsection \<open>ProcessMetadata: sample sequences, clip duration, origin\<close>

fun extract_sample_sequences ::
  "Utils \<Rightarrow> Rational \<Rightarrow> ExternalReader list \<Rightarrow> bmx_exception + ExternalReader list" where
  "extract_sample_sequences u clip_rate [] = Inr []"
| "extract_sample_sequences u clip_rate (x # xs) =
     (case get_sample_sequence u clip_rate (x_edit_rate x) of
        None \<Rightarrow> Inl ResultNotSupported
      | Some sample_sequence \<Rightarrow>
          (case extract_sample_sequences u clip_rate xs of
             Inl e \<Rightarrow> Inl e
           | Inr xs' \<Rightarrow>
               Inr (x\<lparr> x_sample_sequence := sample_sequence,
                       x_sample_sequence_size := get_sequence_size u sample_sequence \<rparr> # xs')))"

text \<open>
  The clip duration: \<open>d\<close> is \<open>mDuration\<close>, which starts at -2; an unknown duration sets it
  to -1 and leaves the loop.
\<close>

fun internal_duration_loop :: "Utils \<Rightarrow> Rational \<Rightarrow> int \<Rightarrow> MXFTrackReader list \<Rightarrow> int" where
  "internal_duration_loop u clip_rate d [] = d"
| "internal_duration_loop u clip_rate d (t # ts) =
     (if duration (track_info t) < 0 then -1
      else
        (let track_duration = convert_duration u (edit_rate (track_info t))
                                (duration (track_info t)) clip_rate ROUND_AUTO
         in internal_duration_loop u clip_rate
              (if d = -2 \<or> track_duration < d then track_duration else d) ts))"

fun external_duration_loop :: "Utils \<Rightarrow> int \<Rightarrow> ExternalReader list \<Rightarrow> int" where
  "external_duration_loop u d [] = d"
| "external_duration_loop u d (x # xs) =
     (if x_duration x < 0 then -1
      else
        (let internal_duration = convert_duration_lower u (x_duration x)
                                   (x_sample_sequence x) (x_sample_sequence_size x)
         in external_duration_loop u
              (if d = -2 \<or> internal_duration < d then internal_duration else d) xs))"

definition determine_clip_duration :: "Utils \<Rightarrow> MXFFileReader \<Rightarrow> MXFFileReader" where
  "determine_clip_duration u r =
     (let d = internal_duration_loop u (mEditRate r) (-2) (mInternalTrackReaders r)
      in r\<lparr> mDuration := (if d \<noteq> -1 then external_duration_loop u d (mExternalReaders r) else d) \<rparr>)"




definition ExternalReader_ForceDuration ::
  "ExternalReader \<Rightarrow> int \<Rightarrow> bmx_exception + ExternalReader" where
  "ExternalReader_ForceDuration x d =
     (if \<not> d \<le> x_duration x then Inl CheckFailed else Inr (x\<lparr> x_duration := d \<rparr>))"

fun force_durations :: "Utils \<Rightarrow> int \<Rightarrow> ExternalReader list \<Rightarrow> bmx_exception + ExternalReader list" where
  "force_durations u d [] = Inr []"
| "force_durations u d (x # xs) =
     (case ExternalReader_ForceDuration x
             (convert_position_higher u d (x_sample_sequence x) (x_sample_sequence_size x)) of
        Inl e \<Rightarrow> Inl e
      | Inr x' \<Rightarrow>
          (case force_durations u d xs of Inl e \<Rightarrow> Inl e | Inr xs' \<Rightarrow> Inr (x' # xs')))"

fun clip_origin_loop :: "Utils \<Rightarrow> int \<Rightarrow> ExternalReader list \<Rightarrow> int" where
  "clip_origin_loop u origin [] = origin"
| "clip_origin_loop u origin (x # xs) =
     (let external_origin = convert_position_lower u (x_origin x)
                              (x_sample_sequence x) (x_sample_sequence_size x)
      in clip_origin_loop u (if external_origin > origin then external_origin else origin) xs)"

subsection \<open>ProcessMetadata: lead filler of timed text tracks\<close>

text \<open>
  When the lead filler offset is not the same for all tracks, or all tracks are timed
  text, a track with lead filler must be a timed text track; its lead filler goes into
  its duration. The source writes through the pointers of \<open>mTrackReaders\<close>; the copies in
  \<open>mInternalTrackReaders\<close> are the same objects and get the same change.
\<close>

definition fold_lead_filler :: "MXFTrackReader \<Rightarrow> MXFTrackReader" where
  "fold_lead_filler t =
     (if lead_filler_offset (track_info t) > 0
      then t\<lparr> track_info := (track_info t)
                \<lparr> duration := duration (track_info t) + lead_filler_offset (track_info t),
                  lead_filler_offset := 0 \<rparr> \<rparr>
      else t)"

definition check_lead_filler :: "Utils \<Rightarrow> MXFFileReader \<Rightarrow> bmx_exception + MXFFileReader" where
  "check_lead_filler u r =
     (if GetFixedLeadFillerOffset u r = 0 \<or> list_all is_timed_text_reader (mTrackReaders r)
      then
        (if list_ex (\<lambda>t. lead_filler_offset (track_info t) > 0 \<and> \<not> is_timed_text_reader t)
              (mTrackReaders r)
         then Inl ResultNotSupported
         else Inr (r\<lparr> mTrackReaders := map fold_lead_filler (mTrackReaders r),
                      mInternalTrackReaders := map fold_lead_filler (mInternalTrackReaders r) \<rparr>))
      else Inr r)"

subsection \<open>ProcessMetadata\<close>

text \<open>
  The sections in the order of the source. Left out are the start timecodes, the text
  objects and the disabling of unused external tracks, which write none of the fields
  kept here, and the search for the body and index SIDs, of which only the exception
  it may raise when there are internal track readers is kept (\<open>essence_container_data\<close>).
\<close>

record HeaderMetadata =
  material_tracks :: "MaterialTrack list"
  essence_container_data :: "bmx_exception option"

definition ProcessMetadata ::
  "Utils \<Rightarrow> ('f::linorder) FloatOps \<Rightarrow> MXFFileReader \<Rightarrow> HeaderMetadata \<Rightarrow>
     bmx_exception + MXFFileReader" where
  "ProcessMetadata u fo r md =
     (case ProcessMetadata_tracks u r (material_tracks md) of
        Inl e \<Rightarrow> Inl e
      | Inr r1 \<Rightarrow>
     (case check_lead_filler u r1 of
        Inl e \<Rightarrow> Inl e
      | Inr r2 \<Rightarrow>
     (let r3 = r2\<lparr> mTrackReaders := stable_sort compare_track_reader (mTrackReaders r2) \<rparr>
      in case (if mInternalTrackReaders r3 \<noteq> [] then essence_container_data md else None) of
           Some e \<Rightarrow> Inl e
         | None \<Rightarrow>
     (case set_clip_edit_rate fo r3 of
        Inl e \<Rightarrow> Inl e
      | Inr r4 \<Rightarrow>
     (case extract_sample_sequences u (mEditRate r4) (mExternalReaders r4) of
        Inl e \<Rightarrow> Inl e
      | Inr xs \<Rightarrow>
     (let r5 = determine_clip_duration u (r4\<lparr> mExternalReaders := xs \<rparr>)
      in case (if mDuration r5 \<ge> 0 then force_durations u (mDuration r5) (mExternalReaders r5)
               else Inr (mExternalReaders r5)) of
           Inl e \<Rightarrow> Inl e
         | Inr xs' \<Rightarrow>
             Inr (r5\<lparr> mExternalReaders := xs',
                      mOrigin := clip_origin_loop u (mFileOrigin r5) xs' \<rparr>)))))))"


subsection \<open>Header metadata to run ProcessMetadata on\<close>

text \<open>
  An external file with one sound track at 48000/1, its duration \<open>d\<close>; for the clip edit
  rate 25/1 its sample sequence is \<open>[1920]\<close>.
\<close>

definition audio_file :: "int \<Rightarrow> ExternalReader" where
  "audio_file d =
     \<lparr> x_object = 1, x_enabled = True, x_edit_rate = er48k, x_duration = d, x_origin = 0,
       x_position = 0, x_read_error = False, x_complete = True,
       x_max_precharge = (\<lambda>position limit. Inr 0),
       x_max_rollout = (\<lambda>position limit. Inr 0),
       x_read_limits = Inr (0, d),
       x_sample_sequence = [1920], x_sample_sequence_size = 1920 \<rparr>"

definition audio_file_track :: MXFTrackReader where
  "audio_file_track = (sound_track 0)\<lparr> track_object := OtherFile 1 0 \<rparr>"


text \<open>
  A material package with a picture track whose file source package track (25/1) has no
  file descriptor, and a sound track whose essence is in the external file.
\<close>

definition picture_mp_track :: MPTrack where
  "picture_mp_track =
     \<lparr> mp_track_id = 1, mp_track_number = 1, mp_edit_rate = er25, mp_start_position = 0,
       mp_duration = 50, mp_data_def = 1, mp_lead_filler_offset = 0 \<rparr>"

definition sound_mp_track :: MPTrack where
  "sound_mp_track =
     \<lparr> mp_track_id = 2, mp_track_number = 1, mp_edit_rate = er48k, mp_start_position = 0,
       mp_duration = 96000, mp_data_def = 2, mp_lead_filler_offset = 0 \<rparr>"

definition picture_fsp_track_without_descriptor :: FSPTrack where
  "picture_fsp_track_without_descriptor =
     \<lparr> fsp_edit_rate = er25, fsp_origin = 0, fsp_track_id = 1, fsp_track_number = 1,
       fsp_file_descriptor = None \<rparr>"

definition skipped_picture_metadata :: HeaderMetadata where
  "skipped_picture_metadata =
     \<lparr> material_tracks =
         [InternalEssence picture_mp_track picture_fsp_track_without_descriptor,
          ExternalEssence sound_mp_track (Some (audio_file 96000, audio_file_track))],
       essence_container_data = None \<rparr>"

text \<open>Floats as rationals, with exact division.\<close>

definition exact_floats :: "rat FloatOps" where
  "exact_floats = \<lparr> float_div = (\<lambda>n d. of_int n / of_int d), float_1000000 = 1000000 \<rparr>"


subsection \<open>IsComplete, InternalIsEnabled, GetPosition, Seek\<close>

definition MXFFileReader_IsComplete :: "MXFFileReader \<Rightarrow> bool" where
  "MXFFileReader_IsComplete r =
     (if mDuration r < 0 \<or>
         (case mEssenceReader r of Some e \<Rightarrow> \<not> er_complete e | None \<Rightarrow> False)
      then False
      else list_all x_complete (mExternalReaders r))"

definition InternalIsEnabled :: "MXFFileReader \<Rightarrow> bool" where
  "InternalIsEnabled r = list_ex track_enabled (mInternalTrackReaders r)"

fun first_enabled_position :: "Utils \<Rightarrow> ExternalReader list \<Rightarrow> int" where
  "first_enabled_position u [] = 0"
| "first_enabled_position u (x # xs) =
     (if \<not> x_enabled x then first_enabled_position u xs
      else convert_position_lower u (x_position x) (x_sample_sequence x) (x_sample_sequence_size x))"

definition GetPosition :: "Utils \<Rightarrow> MXFFileReader \<Rightarrow> int" where
  "GetPosition u r =
     (case (if InternalIsEnabled r then mEssenceReader r else None) of
        Some e \<Rightarrow> er_position e - mFileOrigin r
      | None \<Rightarrow> first_enabled_position u (mExternalReaders r))"

definition Seek_external :: "Utils \<Rightarrow> int \<Rightarrow> ExternalReader \<Rightarrow> ExternalReader" where
  "Seek_external u position x =
     (if \<not> x_enabled x then x
      else ExternalReader_Seek x
             (convert_position_higher u position (x_sample_sequence x) (x_sample_sequence_size x)))"

definition Seek :: "Utils \<Rightarrow> MXFFileReader \<Rightarrow> int \<Rightarrow> MXFFileReader" where
  "Seek u r position =
     (let r1 = (case (if InternalIsEnabled r then mEssenceReader r else None) of
                  Some e \<Rightarrow> r\<lparr> mEssenceReader := Some (EssenceReader_Seek e (position + mFileOrigin r)) \<rparr>
                | None \<Rightarrow> r)
      in r1\<lparr> mExternalReaders := map (Seek_external u position) (mExternalReaders r1) \<rparr>)"

subsection \<open>Precharge and rollout\<close>

fun is_inter_frame_encoding :: "EssenceType \<Rightarrow> bool" where
  "is_inter_frame_encoding MPEG2LG_422P_ML_576I = True"
| "is_inter_frame_encoding MPEG2LG_MP_ML_576I = True"
| "is_inter_frame_encoding MPEG2LG_422P_HL_1080I = True"
| "is_inter_frame_encoding MPEG2LG_422P_HL_1080P = True"
| "is_inter_frame_encoding MPEG2LG_422P_HL_720P = True"
| "is_inter_frame_encoding MPEG2LG_MP_HL_1920_1080I = True"
| "is_inter_frame_encoding MPEG2LG_MP_HL_1920_1080P = True"
| "is_inter_frame_encoding MPEG2LG_MP_HL_1440_1080I = True"
| "is_inter_frame_encoding MPEG2LG_MP_HL_1440_1080P = True"
| "is_inter_frame_encoding MPEG2LG_MP_HL_720P = True"
| "is_inter_frame_encoding MPEG2LG_MP_H14_1080I = True"
| "is_inter_frame_encoding MPEG2LG_MP_H14_1080P = True"
| "is_inter_frame_encoding AVC_BASELINE = True"
| "is_inter_frame_encoding AVC_CONSTRAINED_BASELINE = True"
| "is_inter_frame_encoding AVC_MAIN = True"
| "is_inter_frame_encoding AVC_EXTENDED = True"
| "is_inter_frame_encoding AVC_HIGH = True"
| "is_inter_frame_encoding AVC_HIGH_10 = True"
| "is_inter_frame_encoding AVC_HIGH_422 = True"
| "is_inter_frame_encoding AVC_HIGH_444 = True"
| "is_inter_frame_encoding _ = False"

definition HaveInterFrameEncodingTrack :: "MXFFileReader \<Rightarrow> bool" where
  "HaveInterFrameEncodingTrack r =
     list_ex (\<lambda>t. track_enabled t \<and> is_inter_frame_encoding (essence_type (track_info t)))
       (mInternalTrackReaders r)"

definition GetInternalIndexEntry :: "MXFFileReader \<Rightarrow> int \<Rightarrow> MXFIndexEntryExt option" where
  "GetInternalIndexEntry r position =
     (case mEssenceReader r of
        Some e \<Rightarrow> er_index_entry e (position + mFileOrigin r)
      | None \<Rightarrow> None)"

text \<open>
  \<^verbatim>\<open>CURRENT_POSITION_VALUE\<close> is a macro of a header outside these sources; it is the
  parameter \<open>cpv\<close>. \<open>target_position\<close> is the position asked for, or the reader's position
  when \<open>cpv\<close> is asked for.
\<close>

definition target_position :: "Utils \<Rightarrow> int \<Rightarrow> MXFFileReader \<Rightarrow> int \<Rightarrow> int" where
  "target_position u cpv r position = (if position = cpv then GetPosition u r else position)"

text \<open>
  The \<^verbatim>\<open>int16_t\<close> precharge as it is before the final clamp: 0 without an index entry;
  for a non-zero temporal offset the offset plus the key frame offset of the entry it
  leads to (0 if that entry is missing); else the entry's key frame offset. The sum of
  two \<^verbatim>\<open>int8_t\<close> is taken in \<^verbatim>\<open>int\<close> and fits \<^verbatim>\<open>int16_t\<close>.
\<close>

definition index_precharge :: "MXFFileReader \<Rightarrow> int \<Rightarrow> 16 word" where
  "index_precharge r tp =
     (case GetInternalIndexEntry r tp of
        None \<Rightarrow> 0
      | Some index_entry \<Rightarrow>
          (let target_index_entry_offset = temporal_offset index_entry
           in if target_index_entry_offset \<noteq> 0 then
                (case GetInternalIndexEntry r (tp + sint target_index_entry_offset) of
                   Some entry \<Rightarrow>
                     word_of_int (sint target_index_entry_offset + sint (key_frame_offset entry))
                 | None \<Rightarrow> 0)
              else word_of_int (sint (key_frame_offset index_entry))))"

definition GetInternalPrecharge ::
  "Utils \<Rightarrow> int \<Rightarrow> MXFFileReader \<Rightarrow> int \<Rightarrow> bool \<Rightarrow> bmx_exception + 16 word" where
  "GetInternalPrecharge u cpv r position limit_to_available =
     (if \<not> MXFFileReader_IsComplete r then Inl BMXException
      else
        (case mEssenceReader r of
           None \<Rightarrow> Inr 0
         | Some e \<Rightarrow>
             if \<not> HaveInterFrameEncodingTrack r then Inr 0
             else
               (let tp = target_position u cpv r position
                in if er_legitimise e (tp + mFileOrigin r) - mFileOrigin r \<noteq> tp then Inr 0
                   else
                     (let precharge = index_precharge r tp;
                          precharge1 =
                            (if sint precharge > 0 then precharge
                             else if sint precharge < 0 \<and> limit_to_available
                             then word_of_int
                                    (er_legitimise e (tp + sint precharge + mFileOrigin r)
                                       - mFileOrigin r - tp)
                             else precharge)
                      in Inr (if sint precharge1 < 0 then precharge1 else 0)))))"

definition index_rollout :: "MXFFileReader \<Rightarrow> int \<Rightarrow> 16 word" where
  "index_rollout r tp =
     (case GetInternalIndexEntry r tp of
        None \<Rightarrow> 0
      | Some index_entry \<Rightarrow>
          if sint (temporal_offset index_entry) > 0
          then word_of_int (sint (temporal_offset index_entry)) else 0)"

definition GetInternalRollout ::
  "Utils \<Rightarrow> int \<Rightarrow> MXFFileReader \<Rightarrow> int \<Rightarrow> bool \<Rightarrow> bmx_exception + 16 word" where
  "GetInternalRollout u cpv r position limit_to_available =
     (if \<not> MXFFileReader_IsComplete r then Inl BMXException
      else
        (case mEssenceReader r of
           None \<Rightarrow> Inr 0
         | Some e \<Rightarrow>
             if \<not> HaveInterFrameEncodingTrack r then Inr 0
             else
               (let tp = target_position u cpv r position
                in if er_legitimise e (tp + mFileOrigin r) - mFileOrigin r \<noteq> tp then Inr 0
                   else
                     (let rollout = index_rollout r tp;
                          rollout1 =
                            (if sint rollout < 0 then rollout
                             else if sint rollout > 0 \<and> limit_to_available
                             then word_of_int
                                    (er_legitimise e (tp + sint rollout + mFileOrigin r)
                                       - mFileOrigin r - tp)
                             else rollout)
                      in Inr (if sint rollout1 > 0 then rollout1 else 0)))))"

text \<open>\<^verbatim>\<open>GetInternalAvailableReadLimits\<close>: the start position and the duration.\<close>

definition GetInternalAvailableReadLimits ::
  "Utils \<Rightarrow> int \<Rightarrow> MXFFileReader \<Rightarrow> bmx_exception + (int \<times> int)" where
  "GetInternalAvailableReadLimits u cpv r =
     (if \<not> MXFFileReader_IsComplete r then Inl BMXException
      else
        (case GetInternalPrecharge u cpv r 0 True of
           Inl e \<Rightarrow> Inl e
         | Inr precharge \<Rightarrow>
             (case GetInternalRollout u cpv r (mDuration r - 1) True of
                Inl e \<Rightarrow> Inl e
              | Inr rollout \<Rightarrow>
                  Inr (0 + sint precharge, - sint precharge + mDuration r + sint rollout))))"

definition INT64_MIN :: int where
  "INT64_MIN = - (2 ^ 63)"

definition INT64_MAX :: int where
  "INT64_MAX = 2 ^ 63 - 1"

text \<open>
  The loop of \<^verbatim>\<open>GetMaxPrecharge\<close> over the external readers carries \<open>precharge\<close> and
  \<open>max_start_position\<close>.
\<close>

fun GetMaxPrecharge_externals ::
  "Utils \<Rightarrow> Rational \<Rightarrow> int \<Rightarrow> bool \<Rightarrow> int \<Rightarrow> int \<Rightarrow> ExternalReader list \<Rightarrow>
     bmx_exception + (int \<times> int)" where
  "GetMaxPrecharge_externals u clip_rate tp limit_to_available precharge max_start_position [] =
     Inr (precharge, max_start_position)"
| "GetMaxPrecharge_externals u clip_rate tp limit_to_available precharge max_start_position (x # xs) =
     (if \<not> x_enabled x
      then GetMaxPrecharge_externals u clip_rate tp limit_to_available precharge max_start_position xs
      else
        (case x_max_precharge x
                (convert_position_higher u tp (x_sample_sequence x) (x_sample_sequence_size x))
                limit_to_available of
           Inl e \<Rightarrow> Inl e
         | Inr ext_reader_precharge \<Rightarrow>
             if ext_reader_precharge \<noteq> 0 \<and> \<not> x_edit_rate x = clip_rate then Inl CheckFailed
             else
               (let precharge1 =
                      (if ext_reader_precharge \<noteq> 0 \<and> sint ext_reader_precharge < precharge
                       then sint ext_reader_precharge else precharge)
                in if limit_to_available then
                     (case x_read_limits x of
                        Inl e \<Rightarrow> Inl e
                      | Inr (ext_start_position, ext_duration) \<Rightarrow>
                          (let int_max_start_position =
                                 convert_position_lower u ext_start_position
                                   (x_sample_sequence x) (x_sample_sequence_size x)
                           in GetMaxPrecharge_externals u clip_rate tp limit_to_available precharge1
                                (if int_max_start_position > max_start_position
                                 then int_max_start_position else max_start_position) xs))
                   else GetMaxPrecharge_externals u clip_rate tp limit_to_available precharge1
                          max_start_position xs)))"

definition GetMaxPrecharge ::
  "Utils \<Rightarrow> int \<Rightarrow> MXFFileReader \<Rightarrow> int \<Rightarrow> bool \<Rightarrow> bmx_exception + 16 word" where
  "GetMaxPrecharge u cpv r position limit_to_available =
     (if \<not> MXFFileReader_IsComplete r then Inl BMXException
      else
        (let tp = target_position u cpv r position
         in case (if InternalIsEnabled r then
                    (case GetInternalPrecharge u cpv r tp limit_to_available of
                       Inl e \<Rightarrow> Inl e
                     | Inr p \<Rightarrow>
                         if limit_to_available then
                           (case GetInternalAvailableReadLimits u cpv r of
                              Inl e \<Rightarrow> Inl e
                            | Inr (start_position, dur) \<Rightarrow> Inr (sint p, start_position))
                         else Inr (sint p, INT64_MIN))
                  else Inr (0, INT64_MIN)) of
              Inl e \<Rightarrow> Inl e
            | Inr (precharge, max_start_position) \<Rightarrow>
                (case GetMaxPrecharge_externals u (mEditRate r) tp limit_to_available
                        precharge max_start_position (mExternalReaders r) of
                   Inl e \<Rightarrow> Inl e
                 | Inr (precharge1, max_start_position1) \<Rightarrow>
                     (let precharge2 =
                            (if limit_to_available \<and> precharge1 < max_start_position1 - tp
                             then max_start_position1 - tp else precharge1)
                      in Inr (if precharge2 < 0 then word_of_int precharge2 else 0)))))"

fun GetMaxRollout_externals ::
  "Utils \<Rightarrow> Rational \<Rightarrow> int \<Rightarrow> bool \<Rightarrow> int \<Rightarrow> int \<Rightarrow> ExternalReader list \<Rightarrow>
     bmx_exception + (int \<times> int)" where
  "GetMaxRollout_externals u clip_rate tp limit_to_available rollout min_end_position [] =
     Inr (rollout, min_end_position)"
| "GetMaxRollout_externals u clip_rate tp limit_to_available rollout min_end_position (x # xs) =
     (if \<not> x_enabled x
      then GetMaxRollout_externals u clip_rate tp limit_to_available rollout min_end_position xs
      else
        (case x_max_rollout x
                (convert_position_higher u (tp + 1) (x_sample_sequence x) (x_sample_sequence_size x) - 1)
                limit_to_available of
           Inl e \<Rightarrow> Inl e
         | Inr ext_reader_rollout \<Rightarrow>
             if ext_reader_rollout \<noteq> 0 \<and> \<not> x_edit_rate x = clip_rate then Inl CheckFailed
             else
               (let rollout1 =
                      (if ext_reader_rollout \<noteq> 0 \<and> sint ext_reader_rollout > rollout
                       then sint ext_reader_rollout else rollout)
                in if limit_to_available then
                     (case x_read_limits x of
                        Inl e \<Rightarrow> Inl e
                      | Inr (ext_start_position, ext_duration) \<Rightarrow>
                          (let int_min_end_position =
                                 convert_duration_lower u (ext_start_position + ext_duration)
                                   (x_sample_sequence x) (x_sample_sequence_size x)
                           in GetMaxRollout_externals u clip_rate tp limit_to_available rollout1
                                (if int_min_end_position < min_end_position
                                 then int_min_end_position else min_end_position) xs))
                   else GetMaxRollout_externals u clip_rate tp limit_to_available rollout1
                          min_end_position xs)))"

definition GetMaxRollout ::
  "Utils \<Rightarrow> int \<Rightarrow> MXFFileReader \<Rightarrow> int \<Rightarrow> bool \<Rightarrow> bmx_exception + 16 word" where
  "GetMaxRollout u cpv r position limit_to_available =
     (if \<not> MXFFileReader_IsComplete r then Inl BMXException
      else
        (let tp = target_position u cpv r position
         in case (if InternalIsEnabled r then
                    (case GetInternalRollout u cpv r tp limit_to_available of
                       Inl e \<Rightarrow> Inl e
                     | Inr p \<Rightarrow>
                         if limit_to_available then
                           (case GetInternalAvailableReadLimits u cpv r of
                              Inl e \<Rightarrow> Inl e
                            | Inr (start_position, dur) \<Rightarrow>
                                Inr (sint p, start_position + dur))
                         else Inr (sint p, INT64_MAX))
                  else Inr (0, INT64_MAX)) of
              Inl e \<Rightarrow> Inl e
            | Inr (rollout, min_end_position) \<Rightarrow>
                (case GetMaxRollout_externals u (mEditRate r) tp limit_to_available
                        rollout min_end_position (mExternalReaders r) of
                   Inl e \<Rightarrow> Inl e
                 | Inr (rollout1, min_end_position1) \<Rightarrow>
                     (let rollout2 =
                            (if limit_to_available \<and> rollout1 > min_end_position1 - tp
                             then min_end_position1 - tp else rollout1)
                      in Inr (if rollout2 > 0 then word_of_int rollout2 else 0)))))"

text \<open>
  The internal precharge in the words of the specification: from the index entry at the
  target position, the temporal offset plus the key frame offset of the entry it leads
  to when the temporal offset is not 0, else the key frame offset; a positive value
  becomes 0. The value is 0 where an entry is missing.
\<close>

definition spec_internal_precharge :: "MXFFileReader \<Rightarrow> int \<Rightarrow> int" where
  "spec_internal_precharge r tp =
     (case GetInternalIndexEntry r tp of
        None \<Rightarrow> 0
      | Some index_entry \<Rightarrow>
          (let v = (if sint (temporal_offset index_entry) \<noteq> 0 then
                      (case GetInternalIndexEntry r (tp + sint (temporal_offset index_entry)) of
                         Some entry \<Rightarrow>
                           sint (temporal_offset index_entry) + sint (key_frame_offset entry)
                       | None \<Rightarrow> 0)
                    else sint (key_frame_offset index_entry))
           in if v > 0 then 0 else v))"

text \<open>
  The target position is one the internal precharge is read from the index at: there is
  an essence reader, an enabled internal track is inter-frame coded, and the position is
  within the essence range.
\<close>

definition legitimate_inter_frame_position :: "MXFFileReader \<Rightarrow> int \<Rightarrow> bool" where
  "legitimate_inter_frame_position r tp =
     (case mEssenceReader r of
        None \<Rightarrow> False
      | Some e \<Rightarrow>
          HaveInterFrameEncodingTrack r \<and>
          er_legitimise e (tp + mFileOrigin r) - mFileOrigin r = tp)"

text \<open>
  A file of ten edit units with groups of three pictures: key frame offsets 0, -1, -2, ...
  and one entry, at position 4, with the temporal offset -2. The long GOP picture track
  is enabled or not; the sound track is.
\<close>

definition gop_index :: "int \<Rightarrow> MXFIndexEntryExt option" where
  "gop_index p =
     (if 0 \<le> p \<and> p < 10
      then Some \<lparr> temporal_offset = (if p = 4 then - 2 else 0),
                  key_frame_offset = word_of_int (- (p mod 3)) \<rparr>
      else None)"

definition gop_essence_reader :: EssenceReader where
  "gop_essence_reader =
     \<lparr> er_position = 0, er_index_entry = gop_index,
       er_legitimise = (\<lambda>p. max 0 (min 9 p)), er_complete = True \<rparr>"

definition long_gop_track :: "bool \<Rightarrow> MXFTrackReader" where
  "long_gop_track enabled =
     (picture_track 1 1)\<lparr> track_enabled := enabled,
        track_info := (track_info (picture_track 1 1))\<lparr> essence_type := MPEG2LG_422P_HL_1080I,
                                                       duration := 10 \<rparr> \<rparr>"

definition long_gop_reader :: "bool \<Rightarrow> MXFFileReader" where
  "long_gop_reader enabled =
     MXFFileReader_new\<lparr> mEditRate := er25, mDuration := 10,
       mTrackReaders := [long_gop_track enabled, sound_track 0],
       mInternalTrackReaders := [long_gop_track enabled, sound_track 0],
       mEssenceReader := Some gop_essence_reader \<rparr>"


subsection \<open>Read\<close>

text \<open>
  What the essence reader and the external readers do in a read is not in these
  sources; it is given by the functions of \<open>ReadEnv\<close>:
  \<^item> \<open>EssenceReader_Read e n\<close>: the essence reader's position after \<^verbatim>\<open>Read(n)\<close>, and the
    exception it raises or the number of samples it returns;
  \<^item> \<open>ExternalReader_Read x n\<close>: the external reader's position and read-error flag after
    \<^verbatim>\<open>Read(n, false)\<close>, and the number of samples it returns;
  \<^item> \<open>frame_info_extracted r\<close>: whether \<^verbatim>\<open>ExtractFrameInfo\<close> gets the frames it needs.
\<close>

record ReadEnv =
  EssenceReader_Read :: "EssenceReader \<Rightarrow> u32 \<Rightarrow> int \<times> (bmx_exception + u32)"
  ExternalReader_Read :: "ExternalReader \<Rightarrow> u32 \<Rightarrow> int \<times> bool \<times> u32"
  frame_info_extracted :: "MXFFileReader \<Rightarrow> bool"

text \<open>
  \<^verbatim>\<open>ExtractFrameInfo\<close> reads the first frames, sets \<open>mRequireFrameInfoCount\<close> to 0 when it
  has what it needs, and seeks the essence reader back to where it was. What it
  records from the frames is in fields that are not kept here.
\<close>

definition ExtractFrameInfo :: "ReadEnv \<Rightarrow> MXFFileReader \<Rightarrow> MXFFileReader" where
  "ExtractFrameInfo env r =
     (if frame_info_extracted env r then r\<lparr> mRequireFrameInfoCount := 0 \<rparr> else r)"

text \<open>A call to the frame buffer of a track reader, made for enabled track readers only.\<close>

definition frame_buffer_do :: "frame_buffer_call \<Rightarrow> MXFTrackReader \<Rightarrow> MXFTrackReader" where
  "frame_buffer_do c t = (if track_enabled t then t\<lparr> frame_buffer := frame_buffer t @ [c] \<rparr> else t)"

definition StartRead :: "MXFFileReader \<Rightarrow> MXFFileReader" where
  "StartRead r = r\<lparr> mTrackReaders := map (frame_buffer_do FB_StartRead) (mTrackReaders r) \<rparr>"

definition CompleteRead :: "MXFFileReader \<Rightarrow> MXFFileReader" where
  "CompleteRead r = r\<lparr> mTrackReaders := map (frame_buffer_do FB_CompleteRead) (mTrackReaders r) \<rparr>"

definition AbortRead :: "MXFFileReader \<Rightarrow> MXFFileReader" where
  "AbortRead r = r\<lparr> mTrackReaders := map (frame_buffer_do FB_AbortRead) (mTrackReaders r) \<rparr>"

definition SetNextFramePosition :: "MXFFileReader \<Rightarrow> Rational \<Rightarrow> int \<Rightarrow> MXFFileReader" where
  "SetNextFramePosition r rate position =
     r\<lparr> mTrackReaders :=
          map (frame_buffer_do (FB_SetNextFramePosition rate position)) (mTrackReaders r) \<rparr>"

definition SetNextFrameTrackPositions :: "MXFFileReader \<Rightarrow> MXFFileReader" where
  "SetNextFrameTrackPositions r =
     r\<lparr> mTrackReaders :=
          map (\<lambda>t. frame_buffer_do
                      (FB_SetNextFrameTrackPosition (track_edit_rate t) (track_position t)) t)
            (mTrackReaders r) \<rparr>"

text \<open>
  The loop over the external readers in the \<^verbatim>\<open>try\<close> block. It carries \<open>max_num_read\<close> and
  returns the external readers as the reads leave them, with the exception raised or
  the final \<open>max_num_read\<close>.
\<close>

fun Read_externals ::
  "ReadEnv \<Rightarrow> Utils \<Rightarrow> u32 \<Rightarrow> int \<Rightarrow> u32 \<Rightarrow> ExternalReader list \<Rightarrow>
     ExternalReader list \<times> (bmx_exception + u32)" where
  "Read_externals env u num_samples current_position max_num_read [] = ([], Inr max_num_read)"
| "Read_externals env u num_samples current_position max_num_read (x # xs) =
     (if \<not> x_enabled x then
        (case Read_externals env u num_samples current_position max_num_read xs of
           (xs', res) \<Rightarrow> (x # xs', res))
      else
        (let external_current_position =
               convert_position_higher u current_position
                 (x_sample_sequence x) (x_sample_sequence_size x);
             x1 = (if x_position x \<noteq> external_current_position
                   then ExternalReader_Seek x external_current_position else x);
             num_external_samples =
               (word_of_int (convert_duration_higher_at u (uint num_samples) current_position
                               (x_sample_sequence x) (x_sample_sequence_size x)) :: u32)
         in case ExternalReader_Read env x1 num_external_samples of
              (position, read_error, external_num_read) \<Rightarrow>
                (let x2 = x1\<lparr> x_position := position, x_read_error := read_error \<rparr>
                 in if external_num_read < num_external_samples \<and> x_read_error x2
                    then (x2 # xs, Inl BMXException)
                    else
                      (let internal_num_read =
                             (word_of_int (convert_duration_lower_at u (uint external_num_read)
                                             external_current_position
                                             (x_sample_sequence x) (x_sample_sequence_size x)) :: u32)
                       in case Read_externals env u num_samples current_position
                                 (if internal_num_read > max_num_read
                                  then internal_num_read else max_num_read) xs of
                            (xs', res) \<Rightarrow> (x2 # xs', res)))))"

text \<open>
  The \<^verbatim>\<open>try\<close> block: the reader as the block leaves it, with the exception raised in it
  or the value it returns.
\<close>

definition Read_try ::
  "ReadEnv \<Rightarrow> Utils \<Rightarrow> MXFFileReader \<Rightarrow> u32 \<Rightarrow> bool \<Rightarrow> int \<Rightarrow>
     MXFFileReader \<times> (bmx_exception + u32)" where
  "Read_try env u r num_samples is_top current_position =
     (let r1 = (if is_top
                then SetNextFrameTrackPositions
                       (SetNextFramePosition r (mEditRate r) current_position)
                else r)
      in case (case (if InternalIsEnabled r1 then mEssenceReader r1 else None) of
                 Some e \<Rightarrow>
                   (case EssenceReader_Read env e num_samples of
                      (position, res) \<Rightarrow>
                        (r1\<lparr> mEssenceReader := Some (e\<lparr> er_position := position \<rparr>) \<rparr>, res))
               | None \<Rightarrow> (r1, Inr 0)) of
           (r2, Inl e) \<Rightarrow> (r2, Inl e)
         | (r2, Inr max_num_read) \<Rightarrow>
             (case Read_externals env u num_samples current_position max_num_read
                     (mExternalReaders r2) of
                (xs, Inl e) \<Rightarrow> (r2\<lparr> mExternalReaders := xs \<rparr>, Inl e)
              | (xs, Inr max_num_read1) \<Rightarrow>
                  if \<not> max_num_read1 \<le> num_samples
                  then (r2\<lparr> mExternalReaders := xs \<rparr>, Inl AssertFailed)
                  else (CompleteRead (r2\<lparr> mExternalReaders := xs \<rparr>), Inr max_num_read1)))"

text \<open>The reader after the deferred extraction of frame information, if one is pending.\<close>

definition Read_prepare :: "ReadEnv \<Rightarrow> MXFFileReader \<Rightarrow> MXFFileReader" where
  "Read_prepare env r =
     (let r0 = r\<lparr> mReadError := False \<rparr>
      in if mRequireFrameInfoCount r0 > 0 then ExtractFrameInfo env r0 else r0)"

definition Read :: "ReadEnv \<Rightarrow> Utils \<Rightarrow> MXFFileReader \<Rightarrow> u32 \<Rightarrow> bool \<Rightarrow> MXFFileReader \<times> u32" where
  "Read env u r num_samples is_top =
     (let r1 = Read_prepare env r
      in if mRequireFrameInfoCount r1 > 0 then (r1\<lparr> mReadError := True \<rparr>, 0)
         else
           (let current_position = GetPosition u r1
            in case Read_try env u (StartRead r1) num_samples is_top current_position of
                 (r2, Inr max_num_read) \<Rightarrow> (r2, max_num_read)
               | (r2, Inl e) \<Rightarrow>
                   (Seek u (AbortRead (r2\<lparr> mReadError := True \<rparr>)) current_position, 0)))"


subsection \<open>What a read keeps, and example reads\<close>

text \<open>
  The condition \<^verbatim>\<open>InternalIsEnabled() && mEssenceReader\<close> of \<^verbatim>\<open>Read\<close>, \<^verbatim>\<open>Seek\<close> and
  \<^verbatim>\<open>GetPosition\<close>: the essence reader, if it is the one that gives the position.
\<close>

definition internal_essence :: "MXFFileReader \<Rightarrow> EssenceReader option" where
  "internal_essence r = (if InternalIsEnabled r then mEssenceReader r else None)"

text \<open>What a read leaves unchanged in an external reader.\<close>

definition x_static :: "ExternalReader \<Rightarrow> bool \<times> u32 list \<times> int" where
  "x_static x = (x_enabled x, x_sample_sequence x, x_sample_sequence_size x)"

text \<open>
  \<open>round_trip u p x\<close>: converting the clip position \<open>p\<close> to the edit rate of the external
  reader \<open>x\<close> (\<^verbatim>\<open>CONVERT_INTERNAL_POS\<close>) and back (\<^verbatim>\<open>CONVERT_EXTERNAL_POS\<close>) gives \<open>p\<close>.
\<close>

definition round_trip :: "Utils \<Rightarrow> int \<Rightarrow> ExternalReader \<Rightarrow> bool" where
  "round_trip u p x \<longleftrightarrow>
     convert_position_lower u
       (convert_position_higher u p (x_sample_sequence x) (x_sample_sequence_size x))
       (x_sample_sequence x) (x_sample_sequence_size x) = p"

text \<open>
  What \<^verbatim>\<open>GetPosition\<close> reads from the external readers after \<^verbatim>\<open>Seek(p)\<close>, from what a read
  leaves unchanged in them.
\<close>

fun position_after_seek :: "Utils \<Rightarrow> int \<Rightarrow> (bool \<times> u32 list \<times> int) list \<Rightarrow> int" where
  "position_after_seek u p [] = 0"
| "position_after_seek u p ((enabled, s, sz) # xs) =
     (if \<not> enabled then position_after_seek u p xs
      else convert_position_lower u (convert_position_higher u p s sz) s sz)"

text \<open>
  A clip of one sound track whose essence is in an external file of 48000/1, at the
  third frame of 25/1: the external reader is at sample 3840.
\<close>

definition external_only_reader :: MXFFileReader where
  "external_only_reader =
     MXFFileReader_new\<lparr> mEditRate := er25,
       mTrackReaders := [audio_file_track],
       mExternalReaders := [(audio_file 96000)\<lparr> x_position := 3840 \<rparr>],
       mExternalTrackReaders := [audio_file_track] \<rparr>"

text \<open>
  Reads that return all the samples asked for, and reads in which the external file
  gives one frame of samples (1920) and then reports a read error.
\<close>

definition complete_reads :: ReadEnv where
  "complete_reads =
     \<lparr> EssenceReader_Read = (\<lambda>e n. (er_position e + uint n, Inr n)),
       ExternalReader_Read = (\<lambda>x n. (x_position x + uint n, False, n)),
       frame_info_extracted = (\<lambda>r. True) \<rparr>"

definition failing_reads :: ReadEnv where
  "failing_reads =
     \<lparr> EssenceReader_Read = (\<lambda>e n. (er_position e + uint n, Inr n)),
       ExternalReader_Read = (\<lambda>x n. (x_position x + 1920, True, 1920)),
       frame_info_extracted = (\<lambda>r. True) \<rparr>"

section \<open>RawEssenceReader: the read budget, fixed-size samples and the last-sample flag\<close>

subsection \<open>What the member functions keep\<close>

lemma kept_refl: "kept r r" by (simp add: kept_def)
lemma kept_trans: "kept a b \<Longrightarrow> kept b c \<Longrightarrow> kept a c" by (auto simp add: kept_def)

lemma uint_actual_size:
  assumes "0 < mMaxReadLength r" "mTotalReadLength r \<le> mMaxReadLength r"
  shows "uint (actual_size r sz) = min (uint sz) (mMaxReadLength r - mTotalReadLength r)"
proof (cases "mTotalReadLength r + uint sz > mMaxReadLength r")
  case True
  have lt: "uint sz < 2 ^ 32" using uint_bounded [of sz] by simp
  have "0 \<le> mMaxReadLength r - mTotalReadLength r" using assms by simp
  moreover have "mMaxReadLength r - mTotalReadLength r < 2 ^ 32" using True lt by linarith
  ultimately have "uint (word_of_int (mMaxReadLength r - mTotalReadLength r) :: u32)
      = mMaxReadLength r - mTotalReadLength r"
    by (intro word_of_int_inverse [OF refl]) simp_all
  then show ?thesis using True assms by (simp add: actual_size_def)
next
  case False
  then show ?thesis using assms by (simp add: actual_size_def)
qed

lemma length_EssenceSource_Read:
  "EssenceSource_Read es s n = (bs, s') \<Longrightarrow> length bs \<le> unat n"
  by (auto simp: EssenceSource_Read_def split: prod.splits)

lemma uint_num_read:
  assumes "EssenceSource_Read es s n = (bs, s')"
  shows "uint (word_of_nat (length bs) :: u32) = int (length bs)"
    and "int (length bs) \<le> uint n"
proof -
  have le: "length bs \<le> unat n" using assms by (rule length_EssenceSource_Read)
  have u: "unat (word_of_nat (length bs) :: u32) = length bs"
    using le by (rule le_unat_uoi)
  have "uint (word_of_nat (length bs) :: u32) = int (unat (word_of_nat (length bs) :: u32))"
    by (rule uint_nat)
  then show "uint (word_of_nat (length bs) :: u32) = int (length bs)"
    by (simp only: u)
  have "uint n = int (unat n)" by (rule uint_nat)
  then show "int (length bs) \<le> uint n" using le by linarith
qed

lemma ReadBytes_budget:
  assumes "0 < mMaxReadLength r" "mTotalReadLength r \<le> mMaxReadLength r"
  shows "\<exists>r' k. ReadBytes es r sz = Inr (r', k)
           \<and> mMaxReadLength r' = mMaxReadLength r
           \<and> mTotalReadLength r' = mTotalReadLength r + uint k
           \<and> uint k \<le> min (uint sz) (mMaxReadLength r - mTotalReadLength r)"
proof (cases "actual_size r sz = 0")
  case True
  then show ?thesis using assms by (simp add: ReadBytes_def)
next
  case False
  obtain bs s' where rd: "EssenceSource_Read es (mEssenceSource r) (actual_size r sz) = (bs, s')"
    by (cases "EssenceSource_Read es (mEssenceSource r) (actual_size r sz)")
  note n = uint_num_read [OF rd]
  show ?thesis using assms False rd n uint_actual_size [OF assms, of sz]
    by (simp add: ReadBytes_def Let_def)
qed

lemma AppendBytes_budget:
  assumes "0 < mMaxReadLength r" "mTotalReadLength r \<le> mMaxReadLength r"
  shows "\<exists>r' k. AppendBytes r bytes sz = Inr (r', k)
           \<and> mMaxReadLength r' = mMaxReadLength r
           \<and> mTotalReadLength r' = mTotalReadLength r + uint k
           \<and> uint k = min (uint sz) (mMaxReadLength r - mTotalReadLength r)"
  using assms uint_actual_size [OF assms, of sz]
  by (auto simp add: AppendBytes_def)

lemma ReadBytes_kept: "ReadBytes es r sz = Inr (r', k) \<Longrightarrow> kept r r'"
proof -
  assume a: "ReadBytes es r sz = Inr (r', k)"
  have 1: "mMaxReadLength r' = mMaxReadLength r" "mLastSampleRead r' = mLastSampleRead r"
    using a by (auto simp: ReadBytes_def Let_def split: if_splits prod.splits)
  have 2: "mTotalReadLength r' \<le> mMaxReadLength r"
    if "0 < mMaxReadLength r" "mTotalReadLength r \<le> mMaxReadLength r"
    using ReadBytes_budget [OF that, of es sz] a by auto
  show ?thesis using 1 2 by (simp add: kept_def)
qed


lemma AppendBytes_kept: "AppendBytes r bytes sz = Inr (r', k) \<Longrightarrow> kept r r'"
proof -
  assume a: "AppendBytes r bytes sz = Inr (r', k)"
  have 1: "mMaxReadLength r' = mMaxReadLength r" "mLastSampleRead r' = mLastSampleRead r"
    using a by (auto simp: AppendBytes_def split: if_splits)
  have 2: "mTotalReadLength r' \<le> mMaxReadLength r"
    if "0 < mMaxReadLength r" "mTotalReadLength r \<le> mMaxReadLength r"
    using AppendBytes_budget [OF that, of bytes sz] a by auto
  show ?thesis using 1 2 by (simp add: kept_def)
qed

lemma ShiftSampleData_kept: "ShiftSampleData r t f = Inr r' \<Longrightarrow> kept r r'"
  by (auto simp: ShiftSampleData_def kept_def Let_def split: if_splits)

lemma kept_update:
  "kept r r' \<Longrightarrow> kept r (r'\<lparr> mLastSampleRead := True \<rparr>)"
  "kept r r' \<Longrightarrow> kept r (r'\<lparr> mReadFirstSample := b \<rparr>)"
  "kept r r' \<Longrightarrow> kept r (r'\<lparr> mEssenceParser := p \<rparr>)"
  "kept r r' \<Longrightarrow> kept r (r'\<lparr> mSampleDataSize := d \<rparr>)"
  "kept r r' \<Longrightarrow> kept r (r'\<lparr> mNumSamples := k \<rparr>)"
  "kept r r' \<Longrightarrow> kept r (r'\<lparr> mSampleBuffer := buf \<rparr>)"
  by (simp_all add: kept_def)

lemma ParseFrameSize_loop_kept:
  "ParseFrameSize_loop fuel es ep r p so n = Some (Inr (r', x)) \<Longrightarrow> kept r r'"
proof (induction fuel arbitrary: r p n)
  case 0
  then show ?case by simp
next
  case (Suc fuel)
  obtain ss p' where ps: "ParseFrameSize2 ep p (window (mSampleBuffer r) so n) = (ss, p')"
    by (cases "ParseFrameSize2 ep p (window (mSampleBuffer r) so n)")
  show ?case
  proof (cases "IsUnknown ss")
    case False
    then show ?thesis using Suc.prems ps by (simp add: kept_refl)
  next
    case True
    show ?thesis
    proof (cases "ReadBytes es r (mReadBlockSize r)")
      case (Inl e)
      then show ?thesis using Suc.prems ps True by (simp split: if_splits)
    next
      case (Inr y)
      obtain r1 k where y: "y = (r1, k)" by (cases y)
      have k1: "kept r r1" using Inr y by (auto dest: ReadBytes_kept)
      show ?thesis
      proof (cases "k = 0")
        case True
        then show ?thesis using Suc.prems ps \<open>IsUnknown ss\<close> Inr y k1
          by (simp split: if_splits)
      next
        case False
        then have "ParseFrameSize_loop fuel es ep r1 p' so (n + k) = Some (Inr (r', x))"
          using Suc.prems ps \<open>IsUnknown ss\<close> Inr y by (simp split: if_splits)
        then have "kept r1 r'" by (rule Suc.IH)
        then show ?thesis using k1 by (blast intro: kept_trans)
      qed
    qed
  qed
qed

lemma find_sample_start_kept:
  "find_sample_start es ep r p so n = Inr (r', x) \<Longrightarrow> kept r r'"
  unfolding find_sample_start_def
  by (auto split: if_splits sum.splits prod.splits
           dest!: ReadBytes_kept ShiftSampleData_kept
           intro: kept_update kept_trans)

lemma finish_sample_kept:
  "finish_sample es ep r ss n = Inr (r', b) \<Longrightarrow> kept r r'"
  unfolding finish_sample_def
  by (auto split: if_splits sum.splits prod.splits option.splits
           dest!: ReadBytes_kept
           intro!: kept_update intro: kept_refl)


lemma ReadAndParseSample_kept:
  assumes "ReadAndParseSample fuel es ep r = Some (Inr (r', b))"
  shows "kept r r'"
proof -
  obtain p where p: "mEssenceParser r = Some p"
    using assms by (cases "mEssenceParser r") (simp_all add: ReadAndParseSample_def)
  define so where "so = mSampleDataSize r"
  define n where "n = Buffer_GetSize (mSampleBuffer r) - so"
  obtain r1 p1 on where f: "find_sample_start es ep r p so n = Inr (r1, p1, on)"
    using assms p unfolding ReadAndParseSample_def so_def n_def
    by (cases "find_sample_start es ep r p (mSampleDataSize r)
                 (Buffer_GetSize (mSampleBuffer r) - mSampleDataSize r)")
       (auto simp: Let_def)
  have k1: "kept r r1" using f by (rule find_sample_start_kept)
  show ?thesis
  proof (cases on)
    case None
    then have "r' = r1\<lparr> mEssenceParser := Some p1 \<rparr>"
      using assms p f unfolding ReadAndParseSample_def so_def n_def by (simp add: Let_def)
    then show ?thesis using k1 by (simp add: kept_update)
  next
    case (Some n1)
    obtain r2 p2 ss n2 where
      l: "ParseFrameSize_loop fuel es ep r1 (ResetParseFrameSize ep p1) so n1
            = Some (Inr (r2, p2, ss, n2))"
      and fin: "finish_sample es ep (r2\<lparr> mEssenceParser := Some p2 \<rparr>) ss n2 = Inr (r', b)"
      using assms p f Some unfolding ReadAndParseSample_def so_def n_def
      by (auto simp: Let_def split: option.splits sum.splits)
    have k2: "kept r1 r2" using l by (rule ParseFrameSize_loop_kept)
    have k3: "kept (r2\<lparr> mEssenceParser := Some p2 \<rparr>) r'" using fin by (rule finish_sample_kept)
    have "kept r2 (r2\<lparr> mEssenceParser := Some p2 \<rparr>)" by (simp add: kept_update kept_refl)
    then show ?thesis using k1 k2 k3 by (blast intro: kept_trans)
  qed
qed

lemma ReadSamples_loop_kept:
  "ReadSamples_loop fuel es ep r k = Some (Inr r') \<Longrightarrow> kept r r'"
proof (induction k arbitrary: r)
  case 0
  then show ?case by (simp add: kept_refl)
next
  case (Suc k)
  then obtain r1 ok where s: "ReadAndParseSample fuel es ep r = Some (Inr (r1, ok))"
    by (auto split: option.splits sum.splits)
  have k1: "kept r r1" using s by (rule ReadAndParseSample_kept)
  show ?case
  proof (cases ok)
    case True
    then have "ReadSamples_loop fuel es ep r1 k = Some (Inr r')" using Suc.prems s by simp
    then have "kept r1 r'" by (rule Suc.IH)
    then show ?thesis using k1 by (blast intro: kept_trans)
  next
    case False
    then show ?thesis using Suc.prems s k1 by simp
  qed
qed

lemma ReadSamples_kept:
  assumes "ReadSamples fuel es ep r n = Some (Inr (r', k))"
  shows "kept r r'"
proof (cases "mLastSampleRead r")
  case True
  then show ?thesis using assms by (simp add: ReadSamples_def kept_refl)
next
  case False
  then obtain r0 where sh: "ShiftSampleData r 0 (mSampleDataSize r) = Inr r0"
    using assms by (auto simp: ReadSamples_def split: sum.splits)
  define r1 where "r1 = r0\<lparr> mSampleDataSize := 0, mNumSamples := 0 \<rparr>"
  have k1: "kept r r1"
    using ShiftSampleData_kept [OF sh] by (simp add: r1_def kept_update)
  show ?thesis
  proof (cases "mFixedSampleSize r1 = 0")
    case True
    then obtain r2 where "ReadSamples_loop fuel es ep r1 (unat n) = Some (Inr r2)" and "r' = r2"
      using assms False sh unfolding ReadSamples_def r1_def
      by (auto simp: Let_def split: option.splits sum.splits)
    then show ?thesis using k1 by (blast intro: kept_trans dest: ReadSamples_loop_kept)
  next
    case nz: False
    then obtain r2 m where
      rb: "ReadBytes es r1 (mFixedSampleSize r1 * n - Buffer_GetSize (mSampleBuffer r1)) = Inr (r2, m)"
      using assms False sh unfolding ReadSamples_def r1_def
      by (auto simp: Let_def split: sum.splits)
    have k2: "kept r1 r2" using rb by (rule ReadBytes_kept)
    have "kept r2 r'"
      using assms False sh nz rb unfolding ReadSamples_def r1_def
      by (auto simp: Let_def kept_def split: if_splits)
    then show ?thesis using k1 k2 by (blast intro: kept_trans)
  qed
qed

lemma do_call_kept:
  assumes "do_call fuel es ep r c = Some (Inr r')" "c \<noteq> Call_Reset"
    "\<forall>len. c \<noteq> Call_SetMaxReadLength len"
  shows "kept r r'"
proof (cases c)
  case (Call_ReadSamples n)
  then obtain k where "ReadSamples fuel es ep r n = Some (Inr (r', k))"
    using assms(1) by (cases "ReadSamples fuel es ep r n")
      (auto elim!: drop_result.elims)
  then show ?thesis by (rule ReadSamples_kept)
next
  case (Call_ReadBytes sz)
  then obtain k where "ReadBytes es r sz = Inr (r', k)"
    using assms(1) by (auto elim!: drop_result.elims)
  then show ?thesis by (rule ReadBytes_kept)
next
  case (Call_AppendBytes bytes sz)
  then obtain k where "AppendBytes r bytes sz = Inr (r', k)"
    using assms(1) by (auto elim!: drop_result.elims)
  then show ?thesis by (rule AppendBytes_kept)
next
  case (Call_ShiftSampleData t f)
  then show ?thesis using assms(1) by (auto dest: ShiftSampleData_kept)
qed (use assms in \<open>auto simp: kept_def SetFrameStartSize_def SetReadBlockSize_def
       SetFixedSampleSize_def SetEssenceParser_def SetCheckMaxSampleSize_def split: if_splits\<close>)

lemma run_calls_kept:
  "run_calls fuel es ep r cs = Some (Inr r') \<Longrightarrow> Call_Reset \<notin> set cs \<Longrightarrow>
   \<forall>len. Call_SetMaxReadLength len \<notin> set cs \<Longrightarrow> kept r r'"
proof (induction cs arbitrary: r)
  case Nil
  then show ?case by (simp add: kept_refl)
next
  case (Cons c cs)
  then obtain r1 where d: "do_call fuel es ep r c = Some (Inr r1)"
    and rest: "run_calls fuel es ep r1 cs = Some (Inr r')"
    by (auto split: option.splits sum.splits)
  have "kept r r1" using d Cons.prems by (intro do_call_kept) auto
  moreover have "kept r1 r'" using rest Cons.prems by (intro Cons.IH) auto
  ultimately show ?case by (blast intro: kept_trans)
qed


lemma do_call_flag:
  assumes "do_call fuel es ep r c = Some (Inr r')" "c \<noteq> Call_Reset" "mLastSampleRead r"
  shows "mLastSampleRead r'"
proof (cases "\<exists>len. c = Call_SetMaxReadLength len")
  case True
  then show ?thesis using assms by (auto simp: SetMaxReadLength_def)
next
  case False
  then have "kept r r'" using assms by (intro do_call_kept) auto
  then show ?thesis using assms(3) by (simp add: kept_def)
qed

lemma run_calls_flag:
  "run_calls fuel es ep r cs = Some (Inr r') \<Longrightarrow> Call_Reset \<notin> set cs \<Longrightarrow>
   mLastSampleRead r \<Longrightarrow> mLastSampleRead r'"
proof (induction cs arbitrary: r)
  case Nil
  then show ?case by simp
next
  case (Cons c cs)
  then obtain r1 where d: "do_call fuel es ep r c = Some (Inr r1)"
    and rest: "run_calls fuel es ep r1 cs = Some (Inr r')"
    by (auto split: option.splits sum.splits)
  have "mLastSampleRead r1" using d Cons.prems by (intro do_call_flag [OF d]) auto
  then show ?case using rest Cons.prems by (intro Cons.IH) auto
qed

lemma budget_call_succeeds:
  assumes "0 < mMaxReadLength r" "mTotalReadLength r \<le> mMaxReadLength r" "is_budget_call c"
  shows "\<exists>r'. do_call fuel es ep r c = Some (Inr r')"
proof (cases c)
  case (Call_ReadBytes sz)
  then show ?thesis using ReadBytes_budget [OF assms(1,2), of es sz] by auto
next
  case (Call_AppendBytes bytes sz)
  then show ?thesis using AppendBytes_budget [OF assms(1,2), of bytes sz] by auto
qed (use assms(3) in \<open>simp_all add: is_budget_call_def\<close>)

lemma budget_calls_succeed:
  "0 < mMaxReadLength r \<Longrightarrow> mTotalReadLength r \<le> mMaxReadLength r \<Longrightarrow>
   list_all is_budget_call cs \<Longrightarrow> \<exists>r'. run_calls fuel es ep r cs = Some (Inr r')"
proof (induction cs arbitrary: r)
  case Nil
  then show ?case by simp
next
  case (Cons c cs)
  then obtain r1 where d: "do_call fuel es ep r c = Some (Inr r1)"
    using budget_call_succeeds [of r c fuel es ep] by auto
  have "c \<noteq> Call_Reset" "\<forall>len. c \<noteq> Call_SetMaxReadLength len"
    using Cons.prems(3) by (auto simp: is_budget_call_def)
  then have "kept r r1" using d by (intro do_call_kept)
  then have "0 < mMaxReadLength r1" "mTotalReadLength r1 \<le> mMaxReadLength r1"
    using Cons.prems(1,2) by (simp_all add: kept_def)
  then obtain r' where "run_calls fuel es ep r1 cs = Some (Inr r')"
    using Cons.IH [of r1] Cons.prems(3) by auto
  then show ?case using d by simp
qed

lemma unat_Buffer_GetSize: "length b < 2 ^ 32 \<Longrightarrow> unat (Buffer_GetSize b) = length b"
  unfolding Buffer_GetSize_def by (rule of_nat_inverse [OF refl]) simp

lemma ShiftSampleData_to_start:
  assumes "length (mSampleBuffer r) < 2 ^ 32" "from_offset \<le> Buffer_GetSize (mSampleBuffer r)"
  shows "ShiftSampleData r 0 from_offset
           = Inr (r\<lparr> mSampleBuffer := drop (unat from_offset) (mSampleBuffer r) \<rparr>)"
proof -
  let ?b = "mSampleBuffer r"
  have len: "unat (Buffer_GetSize ?b) = length ?b" using assms(1) by (rule unat_Buffer_GetSize)
  have "unat (Buffer_GetSize ?b - from_offset) = length ?b - unat from_offset"
    using assms(2) len by (simp add: unat_sub)
  then show ?thesis using assms(2)
    by (simp add: ShiftSampleData_def Let_def Buffer_SetSize_def)
qed

subsection \<open>ReadSamples with a fixed sample size\<close>

text \<open>
  Claim C6. With \<open>mFixedSampleSize > 0\<close> and the last-sample flag not set,
  \<^verbatim>\<open>ReadSamples(n)\<close> first drops the sample data of the previous call, so that the buffer
  holds the bytes after it (\<open>r1\<close>); it then pulls
  \<open>mFixedSampleSize * n - size of that buffer\<close> bytes with \<^verbatim>\<open>ReadBytes\<close> (\<open>r2\<close>); it sets
  \<open>mNumSamples\<close> to the buffer size divided by the sample size, cuts the buffer to that
  many whole samples, sets \<open>mSampleDataSize\<close> to their size, and sets the last-sample
  flag exactly when the buffer held fewer than \<open>mFixedSampleSize * n\<close> bytes after the
  pull. The call returns \<open>mNumSamples\<close>, whatever the fuel. All sizes are \<^verbatim>\<open>uint32_t\<close>
  and the products and the difference wrap as in the source. The reader is well formed:
  the buffer size fits \<^verbatim>\<open>uint32_t\<close>, the sample data lies within the buffer and the total
  read is within the cap, so that no assertion fails.
\<close>

theorem ReadSamples_fixed_sample_size:
  assumes "mFixedSampleSize r \<noteq> 0" and "\<not> mLastSampleRead r"
    and "length (mSampleBuffer r) < 2 ^ 32"
    and "mSampleDataSize r \<le> Buffer_GetSize (mSampleBuffer r)"
    and "mMaxReadLength r = 0 \<or> mTotalReadLength r \<le> mMaxReadLength r"
  shows "\<exists>r1 r2 m r'.
           r1 = r\<lparr> mSampleBuffer := drop (unat (mSampleDataSize r)) (mSampleBuffer r),
                   mSampleDataSize := 0, mNumSamples := 0 \<rparr> \<and>
           ReadBytes es r1 (mFixedSampleSize r * n - Buffer_GetSize (mSampleBuffer r1)) = Inr (r2, m) \<and>
           ReadSamples fuel es ep r n = Some (Inr (r', mNumSamples r')) \<and>
           mNumSamples r' = Buffer_GetSize (mSampleBuffer r2) div mFixedSampleSize r \<and>
           mSampleBuffer r' = take (unat (mNumSamples r' * mFixedSampleSize r)) (mSampleBuffer r2) \<and>
           mSampleDataSize r' = mNumSamples r' * mFixedSampleSize r \<and>
           mLastSampleRead r' = (Buffer_GetSize (mSampleBuffer r2) < mFixedSampleSize r * n) \<and>
           mEssenceSource r' = mEssenceSource r2 \<and>
           mTotalReadLength r' = mTotalReadLength r2"
proof -
  define r1 where "r1 = r\<lparr> mSampleBuffer := drop (unat (mSampleDataSize r)) (mSampleBuffer r),
                   mSampleDataSize := 0, mNumSamples := 0 \<rparr>"
  have sh: "ShiftSampleData r 0 (mSampleDataSize r)
              = Inr (r\<lparr> mSampleBuffer := drop (unat (mSampleDataSize r)) (mSampleBuffer r) \<rparr>)"
    using assms(3,4) by (rule ShiftSampleData_to_start)
  have ok: "mMaxReadLength r1 = 0 \<or> mTotalReadLength r1 \<le> mMaxReadLength r1"
    using assms(5) by (simp add: r1_def)
  obtain r2 m where rb:
    "ReadBytes es r1 (mFixedSampleSize r * n - Buffer_GetSize (mSampleBuffer r1)) = Inr (r2, m)"
    using ok by (cases "ReadBytes es r1 (mFixedSampleSize r * n - Buffer_GetSize (mSampleBuffer r1))")
      (auto simp: ReadBytes_def Let_def split: if_splits prod.splits)
  have same: "mFixedSampleSize r2 = mFixedSampleSize r" "mLastSampleRead r2 = mLastSampleRead r"
    using rb by (auto simp: ReadBytes_def Let_def r1_def split: if_splits prod.splits)
  have f1: "mFixedSampleSize r1 = mFixedSampleSize r" by (simp add: r1_def)
  define k where "k = Buffer_GetSize (mSampleBuffer r2) div mFixedSampleSize r"
  define r' where "r' = r2\<lparr> mLastSampleRead := Buffer_GetSize (mSampleBuffer r2) < mFixedSampleSize r * n,
                           mNumSamples := k,
                           mSampleBuffer := take (unat (k * mFixedSampleSize r)) (mSampleBuffer r2),
                           mSampleDataSize := k * mFixedSampleSize r \<rparr>"
  have "ReadSamples fuel es ep r n = Some (Inr (r', mNumSamples r'))"
    using assms(1,2) sh rb same f1
    by (simp add: ReadSamples_def Buffer_SetSize_def Let_def r1_def [symmetric] r'_def k_def)
  then show ?thesis using rb by (simp add: r'_def k_def r1_def)
qed


theorem ReadSamples_fixed_sample_size_witness:
  "mFixedSampleSize fixed4_reader \<noteq> 0 \<and> \<not> mLastSampleRead fixed4_reader \<and>
   length (mSampleBuffer fixed4_reader) < 2 ^ 32 \<and>
   mSampleDataSize fixed4_reader \<le> Buffer_GetSize (mSampleBuffer fixed4_reader) \<and>
   (mMaxReadLength fixed4_reader = 0 \<or> mTotalReadLength fixed4_reader \<le> mMaxReadLength fixed4_reader) \<and>
   (\<exists>r2 m r'.
      ReadBytes list_source fixed4_reader (4 * 5 - 0) = Inr (r2, m) \<and>
      ReadSamples 0 list_source (fixed_parser 4) fixed4_reader 5 = Some (Inr (r', 2)) \<and>
      mNumSamples r' = 2 \<and> mSampleBuffer r' = take 8 ten_bytes \<and> mSampleDataSize r' = 8 \<and>
      mLastSampleRead r')"
proof -
  have h: "mFixedSampleSize fixed4_reader \<noteq> 0" "\<not> mLastSampleRead fixed4_reader"
    "length (mSampleBuffer fixed4_reader) < 2 ^ 32"
    "mSampleDataSize fixed4_reader \<le> Buffer_GetSize (mSampleBuffer fixed4_reader)"
    "mMaxReadLength fixed4_reader = 0 \<or> mTotalReadLength fixed4_reader \<le> mMaxReadLength fixed4_reader"
    by (simp_all add: fixed4_reader_def SetFixedSampleSize_def RawEssenceReader_new_def)
  have e: "ReadSamples 0 list_source (fixed_parser 4) fixed4_reader 5 = Some (Inr (drained_reader, 2))"
    by code_simp
  obtain r1 r2 m r' where
    t: "ReadBytes list_source r1 (mFixedSampleSize fixed4_reader * 5 - Buffer_GetSize (mSampleBuffer r1)) = Inr (r2, m)"
      "r1 = fixed4_reader\<lparr> mSampleBuffer := drop (unat (mSampleDataSize fixed4_reader)) (mSampleBuffer fixed4_reader),
                   mSampleDataSize := 0, mNumSamples := 0 \<rparr>"
      "ReadSamples 0 list_source (fixed_parser 4) fixed4_reader 5 = Some (Inr (r', mNumSamples r'))"
      "mLastSampleRead r' = (Buffer_GetSize (mSampleBuffer r2) < mFixedSampleSize fixed4_reader * 5)"
    using ReadSamples_fixed_sample_size [OF h, of list_source 5 0 "fixed_parser 4"] by blast
  have r1: "r1 = fixed4_reader"
    using t(2) by (simp add: fixed4_reader_def SetFixedSampleSize_def RawEssenceReader_new_def)
  have r': "r' = drained_reader" using t(3) e by simp
  have "ReadBytes list_source fixed4_reader (4 * 5 - 0) = Inr (r2, m)"
    using t(1) unfolding r1 by (simp add: fixed4_reader_def SetFixedSampleSize_def RawEssenceReader_new_def Buffer_GetSize_def)
  then show ?thesis using h e r' t(3)
    by (auto simp: drained_reader_def ten_bytes_def)
qed


subsection \<open>The cap on the bytes read\<close>

lemma actual_size_request:
  assumes "0 < mMaxReadLength r" "mTotalReadLength r \<le> mMaxReadLength r"
  shows "actual_size r sz = word_of_int (min (uint sz) (mMaxReadLength r - mTotalReadLength r))"
    and "(actual_size r sz = 0) = (min (uint sz) (mMaxReadLength r - mTotalReadLength r) = 0)"
proof -
  note u = uint_actual_size [OF assms, of sz]
  have "word_of_int (uint (actual_size r sz)) = actual_size r sz" by (rule word_of_int_uint)
  then show "actual_size r sz = word_of_int (min (uint sz) (mMaxReadLength r - mTotalReadLength r))"
    by (simp only: u)
  show "(actual_size r sz = 0) = (min (uint sz) (mMaxReadLength r - mTotalReadLength r) = 0)"
    using u by (simp only: uint_0_iff [symmetric])
qed

lemma ReadBytes_request:
  assumes "0 < mMaxReadLength r" "mTotalReadLength r \<le> mMaxReadLength r"
    and "q = min (uint sz) (mMaxReadLength r - mTotalReadLength r)"
    and "(bs, s') = (if q = 0 then ([], mEssenceSource r)
                     else EssenceSource_Read es (mEssenceSource r) (word_of_int q))"
  shows "ReadBytes es r sz =
           Inr (r\<lparr> mEssenceSource := s',
                    mTotalReadLength := mTotalReadLength r + int (length bs),
                    mSampleBuffer := mSampleBuffer r @ bs \<rparr>, word_of_nat (length bs)) \<and>
         uint (word_of_nat (length bs) :: u32) = int (length bs) \<and>
         int (length bs) \<le> q"
proof (cases "q = 0")
  case True
  note s = actual_size_request [OF assms(1,2), of sz, folded assms(3)]
  have "bs = []" "s' = mEssenceSource r" using True assms(4) by simp_all
  then show ?thesis using True assms(1,2) s by (simp add: ReadBytes_def)
next
  case False
  note s = actual_size_request [OF assms(1,2), of sz, folded assms(3)]
  have rd: "EssenceSource_Read es (mEssenceSource r) (actual_size r sz) = (bs, s')"
    using False assms(4) s(1) by simp
  note n = uint_num_read [OF rd]
  have 1: "uint (word_of_nat (length bs) :: u32) = int (length bs)" by (rule n(1))
  have 2: "int (length bs) \<le> q"
    using n(2) uint_actual_size [OF assms(1,2), of sz] assms(3) by simp
  have 3: "ReadBytes es r sz =
           Inr (r\<lparr> mEssenceSource := s',
                    mTotalReadLength := mTotalReadLength r + int (length bs),
                    mSampleBuffer := mSampleBuffer r @ bs \<rparr>, word_of_nat (length bs))"
    using False assms(1,2) s(2) rd n(1) by (simp add: ReadBytes_def Let_def)
  show ?thesis using 1 2 3 by simp
qed

lemma AppendBytes_request:
  assumes "0 < mMaxReadLength r" "mTotalReadLength r \<le> mMaxReadLength r"
    and "q = min (uint sz) (mMaxReadLength r - mTotalReadLength r)"
  shows "AppendBytes r bytes sz =
           Inr (r\<lparr> mTotalReadLength := mTotalReadLength r + q,
                    mSampleBuffer := mSampleBuffer r @ map bytes [0 ..< nat q] \<rparr>, word_of_int q)"
proof -
  note s = actual_size_request [OF assms(1,2), of sz, folded assms(3)]
  note u = uint_actual_size [OF assms(1,2), of sz, folded assms(3)]
  have "uint (actual_size r sz) = int (unat (actual_size r sz))" by (rule uint_nat)
  then have n: "unat (actual_size r sz) = nat q" using u by linarith
  show ?thesis
  proof (cases "q = 0")
    case True
    then show ?thesis using assms(1,2) s by (simp add: AppendBytes_def)
  next
    case False
    then have "actual_size r sz \<noteq> 0" using s(2) by simp
    then show ?thesis using assms(1,2) u n s(1) by (simp add: AppendBytes_def)
  qed
qed

lemma budget_call_buffer:
  assumes "0 < mMaxReadLength r" "mTotalReadLength r \<le> mMaxReadLength r" "is_budget_call c"
    and "do_call fuel es ep r c = Some (Inr r')"
  shows "mTotalReadLength r \<le> mTotalReadLength r' \<and>
         int (length (mSampleBuffer r')) =
           int (length (mSampleBuffer r)) + (mTotalReadLength r' - mTotalReadLength r)"
proof (cases c)
  case (Call_ReadBytes sz)
  define q where "q = min (uint sz) (mMaxReadLength r - mTotalReadLength r)"
  obtain bs s' where b: "(bs, s') = (if q = 0 then ([], mEssenceSource r)
                     else EssenceSource_Read es (mEssenceSource r) (word_of_int q))"
    by (metis prod.collapse)
  note t = ReadBytes_request [OF assms(1,2) q_def b]
  show ?thesis using assms(4) Call_ReadBytes t by auto
next
  case (Call_AppendBytes bytes sz)
  define q where "q = min (uint sz) (mMaxReadLength r - mTotalReadLength r)"
  have "0 \<le> q" using assms(1,2) by (simp add: q_def)
  then show ?thesis
    using assms(4) Call_AppendBytes AppendBytes_request [OF assms(1,2) q_def, of bytes] by auto
qed (use assms(3) in \<open>simp_all add: is_budget_call_def\<close>)

lemma budget_calls_buffer:
  "0 < mMaxReadLength r \<Longrightarrow> mTotalReadLength r \<le> mMaxReadLength r \<Longrightarrow>
   list_all is_budget_call cs \<Longrightarrow> run_calls fuel es ep r cs = Some (Inr r') \<Longrightarrow>
   mTotalReadLength r \<le> mTotalReadLength r' \<and>
   int (length (mSampleBuffer r')) =
     int (length (mSampleBuffer r)) + (mTotalReadLength r' - mTotalReadLength r)"
proof (induction cs arbitrary: r)
  case Nil
  then show ?case by simp
next
  case (Cons c cs)
  then obtain r1 where d: "do_call fuel es ep r c = Some (Inr r1)"
    using budget_call_succeeds [of r c fuel es ep] by auto
  have "c \<noteq> Call_Reset" "\<forall>len. c \<noteq> Call_SetMaxReadLength len"
    using Cons.prems(3) by (auto simp: is_budget_call_def)
  then have "kept r r1" using d by (intro do_call_kept)
  then have k: "0 < mMaxReadLength r1" "mTotalReadLength r1 \<le> mMaxReadLength r1"
    using Cons.prems(1,2) by (simp_all add: kept_def)
  have c: "is_budget_call c" and cs: "list_all is_budget_call cs" using Cons.prems(3) by simp_all
  have run: "run_calls fuel es ep r1 cs = Some (Inr r')" using Cons.prems(4) d by simp
  note one = budget_call_buffer [OF Cons.prems(1,2) c d]
  note rest = Cons.IH [OF k cs run]
  show ?case using one rest by linarith
qed

text \<open>
  Claim C7. With a cap \<open>mMaxReadLength > 0\<close> and a total within it, let \<open>q\<close> be the smaller
  of the request \<open>sz\<close> and the remaining budget. \<^verbatim>\<open>ReadBytes\<close> returns without an exception;
  if \<open>q\<close> is 0 it leaves the source alone, else it asks the source for exactly \<open>q\<close> bytes;
  the bytes \<open>bs\<close> the source gives are appended to the buffer, the source is left as that
  read leaves it, the total grows by the number of bytes given, which is the value
  returned and is at most \<open>q\<close>, and the total stays within the cap. \<^verbatim>\<open>AppendBytes\<close>
  returns without an exception, appends the first \<open>q\<close> bytes of the caller's memory,
  adds \<open>q\<close> to the total and returns \<open>q\<close>. With the budget used up both return 0 and
  leave the reader as it was. Every sequence of \<^verbatim>\<open>ReadBytes\<close> and \<^verbatim>\<open>AppendBytes\<close> calls
  runs to its end with the total within the cap, and the buffer has grown by as many
  bytes as the total has.
\<close>

theorem total_read_length_within_max:
  "0 < mMaxReadLength r \<Longrightarrow> mTotalReadLength r \<le> mMaxReadLength r \<Longrightarrow>
   (let q = min (uint sz) (mMaxReadLength r - mTotalReadLength r) in
     (\<exists>r' k bs s'. ReadBytes es r sz = Inr (r', k)
         \<and> (bs, s') = (if q = 0 then ([], mEssenceSource r)
                        else EssenceSource_Read es (mEssenceSource r) (word_of_int q))
         \<and> r' = r\<lparr> mEssenceSource := s',
                      mTotalReadLength := mTotalReadLength r + int (length bs),
                      mSampleBuffer := mSampleBuffer r @ bs \<rparr>
         \<and> uint k = int (length bs)
         \<and> uint k \<le> min (uint sz) (mMaxReadLength r - mTotalReadLength r)
         \<and> mTotalReadLength r' = mTotalReadLength r + uint k
         \<and> mTotalReadLength r' \<le> mMaxReadLength r' \<and> mMaxReadLength r' = mMaxReadLength r) \<and>
     (\<exists>r' k. AppendBytes r bytes sz = Inr (r', k)
         \<and> r' = r\<lparr> mTotalReadLength := mTotalReadLength r + q,
                      mSampleBuffer := mSampleBuffer r @ map bytes [0 ..< nat q] \<rparr>
         \<and> uint k = min (uint sz) (mMaxReadLength r - mTotalReadLength r)
         \<and> mTotalReadLength r' = mTotalReadLength r + uint k
         \<and> mTotalReadLength r' \<le> mMaxReadLength r' \<and> mMaxReadLength r' = mMaxReadLength r) \<and>
     (mTotalReadLength r = mMaxReadLength r \<longrightarrow>
        ReadBytes es r sz = Inr (r, 0) \<and> AppendBytes r bytes sz = Inr (r, 0)) \<and>
     (\<forall>cs. list_all is_budget_call cs \<longrightarrow>
        (\<exists>r'. run_calls fuel es ep r cs = Some (Inr r')
           \<and> mTotalReadLength r' \<le> mMaxReadLength r' \<and> mMaxReadLength r' = mMaxReadLength r
           \<and> mTotalReadLength r \<le> mTotalReadLength r'
           \<and> int (length (mSampleBuffer r')) =
               int (length (mSampleBuffer r)) + (mTotalReadLength r' - mTotalReadLength r))))"
proof -
  assume a: "0 < mMaxReadLength r" "mTotalReadLength r \<le> mMaxReadLength r"
  define q where "q = min (uint sz) (mMaxReadLength r - mTotalReadLength r)"
  have q0: "0 \<le> q" using a by (simp add: q_def)
  obtain bs s' where b: "(bs, s') = (if q = 0 then ([], mEssenceSource r)
                     else EssenceSource_Read es (mEssenceSource r) (word_of_int q))"
    by (metis prod.collapse)
  note rb = ReadBytes_request [OF a q_def b]
  have 1: "\<exists>r' k bs s'. ReadBytes es r sz = Inr (r', k)
         \<and> (bs, s') = (if q = 0 then ([], mEssenceSource r)
                        else EssenceSource_Read es (mEssenceSource r) (word_of_int q))
         \<and> r' = r\<lparr> mEssenceSource := s',
                      mTotalReadLength := mTotalReadLength r + int (length bs),
                      mSampleBuffer := mSampleBuffer r @ bs \<rparr>
         \<and> uint k = int (length bs)
         \<and> uint k \<le> min (uint sz) (mMaxReadLength r - mTotalReadLength r)
         \<and> mTotalReadLength r' = mTotalReadLength r + uint k
         \<and> mTotalReadLength r' \<le> mMaxReadLength r' \<and> mMaxReadLength r' = mMaxReadLength r"
  proof (intro exI conjI)
    show "ReadBytes es r sz =
           Inr (r\<lparr> mEssenceSource := s',
                    mTotalReadLength := mTotalReadLength r + int (length bs),
                    mSampleBuffer := mSampleBuffer r @ bs \<rparr>, word_of_nat (length bs))"
      using rb by simp
    show "(bs, s') = (if q = 0 then ([], mEssenceSource r)
                        else EssenceSource_Read es (mEssenceSource r) (word_of_int q))"
      by (rule b)
    show "uint (word_of_nat (length bs) :: u32) = int (length bs)" using rb by simp
    show "uint (word_of_nat (length bs) :: u32) \<le> min (uint sz) (mMaxReadLength r - mTotalReadLength r)"
      using rb by (simp add: q_def)
    show "mTotalReadLength (r\<lparr> mEssenceSource := s',
                    mTotalReadLength := mTotalReadLength r + int (length bs),
                    mSampleBuffer := mSampleBuffer r @ bs \<rparr>)
            = mTotalReadLength r + uint (word_of_nat (length bs) :: u32)"
      using rb by simp
    show "mTotalReadLength (r\<lparr> mEssenceSource := s',
                    mTotalReadLength := mTotalReadLength r + int (length bs),
                    mSampleBuffer := mSampleBuffer r @ bs \<rparr>)
            \<le> mMaxReadLength (r\<lparr> mEssenceSource := s',
                    mTotalReadLength := mTotalReadLength r + int (length bs),
                    mSampleBuffer := mSampleBuffer r @ bs \<rparr>)"
      using rb by (simp add: q_def)
  qed simp_all
  note ab = AppendBytes_request [OF a q_def, of bytes]
  have uq: "uint (word_of_int q :: u32) = q"
    using uint_actual_size [OF a, of sz] actual_size_request(1) [OF a, of sz]
    by (simp add: q_def)
  have 2: "\<exists>r' k. AppendBytes r bytes sz = Inr (r', k)
         \<and> r' = r\<lparr> mTotalReadLength := mTotalReadLength r + q,
                      mSampleBuffer := mSampleBuffer r @ map bytes [0 ..< nat q] \<rparr>
         \<and> uint k = min (uint sz) (mMaxReadLength r - mTotalReadLength r)
         \<and> mTotalReadLength r' = mTotalReadLength r + uint k
         \<and> mTotalReadLength r' \<le> mMaxReadLength r' \<and> mMaxReadLength r' = mMaxReadLength r"
  proof (intro exI conjI)
    show "AppendBytes r bytes sz =
           Inr (r\<lparr> mTotalReadLength := mTotalReadLength r + q,
                    mSampleBuffer := mSampleBuffer r @ map bytes [0 ..< nat q] \<rparr>, word_of_int q)"
      by (rule ab)
    show "uint (word_of_int q :: u32) = min (uint sz) (mMaxReadLength r - mTotalReadLength r)"
      using uq by (simp add: q_def)
    show "mTotalReadLength (r\<lparr> mTotalReadLength := mTotalReadLength r + q,
                    mSampleBuffer := mSampleBuffer r @ map bytes [0 ..< nat q] \<rparr>)
            = mTotalReadLength r + uint (word_of_int q :: u32)"
      using uq by simp
    show "mTotalReadLength (r\<lparr> mTotalReadLength := mTotalReadLength r + q,
                    mSampleBuffer := mSampleBuffer r @ map bytes [0 ..< nat q] \<rparr>)
            \<le> mMaxReadLength (r\<lparr> mTotalReadLength := mTotalReadLength r + q,
                    mSampleBuffer := mSampleBuffer r @ map bytes [0 ..< nat q] \<rparr>)"
      by (simp add: q_def)
  qed simp_all
  have 3: "mTotalReadLength r = mMaxReadLength r \<longrightarrow>
        ReadBytes es r sz = Inr (r, 0) \<and> AppendBytes r bytes sz = Inr (r, 0)"
  proof
    assume e: "mTotalReadLength r = mMaxReadLength r"
    have "uint (actual_size r sz) = 0" using uint_actual_size [OF a, of sz] e by simp
    then have z: "actual_size r sz = 0" by (simp add: uint_0_iff)
    show "ReadBytes es r sz = Inr (r, 0) \<and> AppendBytes r bytes sz = Inr (r, 0)"
      using a z by (simp add: ReadBytes_def AppendBytes_def)
  qed
  have 4: "\<forall>cs. list_all is_budget_call cs \<longrightarrow>
        (\<exists>r'. run_calls fuel es ep r cs = Some (Inr r')
           \<and> mTotalReadLength r' \<le> mMaxReadLength r' \<and> mMaxReadLength r' = mMaxReadLength r
           \<and> mTotalReadLength r \<le> mTotalReadLength r'
           \<and> int (length (mSampleBuffer r')) =
               int (length (mSampleBuffer r)) + (mTotalReadLength r' - mTotalReadLength r))"
  proof (intro allI impI)
    fix cs :: "'b raw_call list"
    assume b: "list_all is_budget_call cs"
    then obtain r' where run: "run_calls fuel es ep r cs = Some (Inr r')"
      using budget_calls_succeed [OF a, of cs fuel es ep] by auto
    have "Call_Reset \<notin> set cs" "\<forall>len. Call_SetMaxReadLength len \<notin> set cs"
      using b by (auto simp: list_all_iff is_budget_call_def)
    then have "kept r r'" using run by (intro run_calls_kept)
    then show "\<exists>r'. run_calls fuel es ep r cs = Some (Inr r')
           \<and> mTotalReadLength r' \<le> mMaxReadLength r' \<and> mMaxReadLength r' = mMaxReadLength r
           \<and> mTotalReadLength r \<le> mTotalReadLength r'
           \<and> int (length (mSampleBuffer r')) =
               int (length (mSampleBuffer r)) + (mTotalReadLength r' - mTotalReadLength r)"
      using run a budget_calls_buffer [OF a b run] by (simp add: kept_def)
  qed
  show ?thesis
    using 1 2 3 4 unfolding Let_def q_def by (intro conjI)
qed

theorem total_read_length_within_max_witness:
  "0 < mMaxReadLength capped_reader \<and> mTotalReadLength capped_reader \<le> mMaxReadLength capped_reader \<and>
   EssenceSource_Read list_source (mEssenceSource capped_reader) 6
     = ([0, 1, 2, 3, 4, 5], ([6, 7, 8, 9], ten_bytes)) \<and>
   ReadBytes list_source capped_reader 9
     = Inr (capped_reader\<lparr> mEssenceSource := ([6, 7, 8, 9], ten_bytes), mTotalReadLength := 6,
                            mSampleBuffer := [0, 1, 2, 3, 4, 5] \<rparr>, 6) \<and>
   AppendBytes capped_reader (\<lambda>i. 7) 9
     = Inr (capped_reader\<lparr> mTotalReadLength := 6, mSampleBuffer := [7, 7, 7, 7, 7, 7] \<rparr>, 6) \<and>
   list_all is_budget_call budget_calls \<and>
   (\<exists>r'. run_calls 0 list_source (fixed_parser 4) capped_reader budget_calls = Some (Inr r')
      \<and> mTotalReadLength r' \<le> 6 \<and> int (length (mSampleBuffer r')) = mTotalReadLength r') \<and>
   0 < mMaxReadLength full_reader \<and> mTotalReadLength full_reader = mMaxReadLength full_reader \<and>
   ReadBytes list_source full_reader 9 = Inr (full_reader, 0) \<and>
   AppendBytes full_reader (\<lambda>i. 7) 9 = Inr (full_reader, 0)"
proof -
  have h: "0 < mMaxReadLength capped_reader" "mTotalReadLength capped_reader \<le> mMaxReadLength capped_reader"
    and m: "mMaxReadLength capped_reader = 6" "mTotalReadLength capped_reader = 0"
      "mSampleBuffer capped_reader = []" "mEssenceSource capped_reader = (ten_bytes, ten_bytes)"
    by (simp_all add: capped_reader_def SetMaxReadLength_def RawEssenceReader_new_def)
  have g: "0 < mMaxReadLength full_reader" "mTotalReadLength full_reader \<le> mMaxReadLength full_reader"
    and e: "mTotalReadLength full_reader = mMaxReadLength full_reader"
    by (simp_all add: full_reader_def capped_reader_def SetMaxReadLength_def RawEssenceReader_new_def)
  have b: "list_all is_budget_call budget_calls"
    by (simp add: budget_calls_def is_budget_call_def)
  have q: "min (uint (9 :: u32)) (mMaxReadLength capped_reader - mTotalReadLength capped_reader) = 6"
    using m by simp
  have rd: "EssenceSource_Read list_source (mEssenceSource capped_reader) 6
     = ([0, 1, 2, 3, 4, 5], ([6, 7, 8, 9], ten_bytes))"
    by (simp add: m EssenceSource_Read_def list_source_def ten_bytes_def)
  note t1 = total_read_length_within_max [OF h, of 9 list_source "\<lambda>i. 7" 0 "fixed_parser 4",
              unfolded Let_def q]
  note t2 = total_read_length_within_max [OF g, of 9 list_source "\<lambda>i. 7" 0 "fixed_parser 4",
              unfolded Let_def]
  have a1: "ReadBytes list_source capped_reader 9
     = Inr (capped_reader\<lparr> mEssenceSource := ([6, 7, 8, 9], ten_bytes), mTotalReadLength := 6,
                            mSampleBuffer := [0, 1, 2, 3, 4, 5] \<rparr>, 6)"
  proof -
    obtain r' k bs s' where x: "ReadBytes list_source capped_reader 9 = Inr (r', k)"
      "(bs, s') = (if (6 :: int) = 0 then ([], mEssenceSource capped_reader)
                   else EssenceSource_Read list_source (mEssenceSource capped_reader) (word_of_int 6))"
      "r' = capped_reader\<lparr> mEssenceSource := s',
              mTotalReadLength := mTotalReadLength capped_reader + int (length bs),
              mSampleBuffer := mSampleBuffer capped_reader @ bs \<rparr>"
      "uint k = int (length bs)"
      using t1 by blast
    have y: "bs = [0, 1, 2, 3, 4, 5]" "s' = ([6, 7, 8, 9], ten_bytes)"
      using x(2) rd by simp_all
    have "uint k = 6" using x(4) y by simp
    then have "k = 6" by (metis word_of_int_uint word_of_int_numeral)
    then show ?thesis using x(1,3) y m by simp
  qed
  have a2: "AppendBytes capped_reader (\<lambda>i. 7) 9
     = Inr (capped_reader\<lparr> mTotalReadLength := 6, mSampleBuffer := [7, 7, 7, 7, 7, 7] \<rparr>, 6)"
  proof -
    obtain r' k where x: "AppendBytes capped_reader (\<lambda>i. 7) 9 = Inr (r', k)"
      "r' = capped_reader\<lparr> mTotalReadLength := mTotalReadLength capped_reader + 6,
              mSampleBuffer := mSampleBuffer capped_reader @ map (\<lambda>i. 7) [0 ..< nat 6] \<rparr>"
      "uint k = 6"
      using t1 by blast
    have "k = 6" using x(3) by (metis word_of_int_uint word_of_int_numeral)
    moreover have "map (\<lambda>i. 7 :: byte) [0 ..< nat 6] = [7, 7, 7, 7, 7, 7]"
      by (simp add: upt_rec)
    ultimately show ?thesis using x(1,2) m by simp
  qed
  have a3: "\<exists>r'. run_calls 0 list_source (fixed_parser 4) capped_reader budget_calls = Some (Inr r')
      \<and> mTotalReadLength r' \<le> 6 \<and> int (length (mSampleBuffer r')) = mTotalReadLength r'"
    using t1 b m by auto
  have a4: "ReadBytes list_source full_reader 9 = Inr (full_reader, 0)"
    "AppendBytes full_reader (\<lambda>i. 7) 9 = Inr (full_reader, 0)"
    using t2 e by blast+
  show ?thesis using h g e b rd a1 a2 a3 a4 by blast
qed

subsection \<open>The last-sample flag\<close>

text \<open>
  Claim C9. Once the last-sample flag is set, \<^verbatim>\<open>ReadSamples(n)\<close> returns 0 and leaves
  the whole reader as it was (the source, the buffer, \<open>mNumSamples\<close> and
  \<open>mSampleDataSize\<close> included); the flag stays set through every sequence of calls of
  the member functions that has no \<^verbatim>\<open>Reset\<close> in it, so \<^verbatim>\<open>ReadSamples\<close> keeps returning 0;
  and a \<^verbatim>\<open>Reset\<close> that returns has moved the source to its start and cleared the flag.
\<close>

theorem last_sample_read_until_Reset:
  "mLastSampleRead r \<Longrightarrow>
     ReadSamples fuel es ep r n = Some (Inr (r, 0)) \<and>
     (\<forall>cs r'. Call_Reset \<notin> set cs \<longrightarrow> run_calls fuel es ep r cs = Some (Inr r') \<longrightarrow>
        mLastSampleRead r' \<and> ReadSamples fuel es ep r' n = Some (Inr (r', 0))) \<and>
     (\<forall>r'. Reset es r = Inr r' \<longrightarrow>
        \<not> mLastSampleRead r' \<and>
        src_SeekStart es (mEssenceSource r) = (True, mEssenceSource r'))"
proof (intro conjI allI impI)
  assume f: "mLastSampleRead r"
  show "ReadSamples fuel es ep r n = Some (Inr (r, 0))" using f by (simp add: ReadSamples_def)
  fix r'
  {
    fix cs
    assume "Call_Reset \<notin> set cs" "run_calls fuel es ep r cs = Some (Inr r')"
    then show "mLastSampleRead r'" using f by (blast intro: run_calls_flag)
    then show "ReadSamples fuel es ep r' n = Some (Inr (r', 0))" by (simp add: ReadSamples_def)
  }
  assume "Reset es r = Inr r'"
  then show "\<not> mLastSampleRead r'"
    and "src_SeekStart es (mEssenceSource r) = (True, mEssenceSource r')"
    by (auto simp: Reset_def split: prod.splits if_splits)
qed

theorem last_sample_read_until_Reset_witness:
  "mLastSampleRead drained_reader \<and>
   ReadSamples 0 list_source (fixed_parser 4) drained_reader 3 = Some (Inr (drained_reader, 0)) \<and>
   Call_Reset \<notin> set flagged_calls \<and>
   (\<exists>r'. run_calls 0 list_source (fixed_parser 4) drained_reader flagged_calls = Some (Inr r') \<and>
      mLastSampleRead r' \<and> ReadSamples 0 list_source (fixed_parser 4) r' 3 = Some (Inr (r', 0))) \<and>
   Reset list_source drained_reader = Inr fixed4_reader \<and> \<not> mLastSampleRead fixed4_reader \<and>
   src_SeekStart list_source (mEssenceSource drained_reader) = (True, mEssenceSource fixed4_reader) \<and>
   ReadSamples 0 list_source (fixed_parser 4) fixed4_reader 5 = Some (Inr (drained_reader, 2))"
proof -
  have h: "mLastSampleRead drained_reader" by (simp add: drained_reader_def)
  note t = last_sample_read_until_Reset [OF h, of 0 list_source "fixed_parser 4" 3]
  have nr: "Call_Reset \<notin> set flagged_calls" by (simp add: flagged_calls_def)
  obtain r1 where run: "run_calls 0 list_source (fixed_parser 4) drained_reader flagged_calls = Some (Inr r1)"
    by (simp add: flagged_calls_def drained_reader_def ReadSamples_def ReadBytes_def actual_size_def
        SetFixedSampleSize_def SetMaxReadLength_def EssenceSource_Read_def list_source_def Let_def)
  have rs: "Reset list_source drained_reader = Inr fixed4_reader"
    by (simp add: Reset_def list_source_def drained_reader_def fixed4_reader_def
        SetFixedSampleSize_def RawEssenceReader_new_def Buffer_SetSize_def)
  have again: "ReadSamples 0 list_source (fixed_parser 4) fixed4_reader 5 = Some (Inr (drained_reader, 2))"
    by code_simp
  show ?thesis using t h nr run rs again by blast
qed


section \<open>MXFFileReader: track order and lead filler\<close>

subsection \<open>GetFixedLeadFillerOffset\<close>

lemma GetFixedLeadFillerOffset_loop_later:
  "0 < i \<Longrightarrow>
   GetFixedLeadFillerOffset_loop u (mEditRate r) fixed_offset i ts =
     (if \<forall>t\<in>set ts. converted_offset u r t = fixed_offset then fixed_offset else 0)"
  by (induction ts arbitrary: i) (auto simp: Let_def converted_offset_def)

lemma GetFixedLeadFillerOffset_eq:
  "GetFixedLeadFillerOffset u r =
     (case mTrackReaders r of [] \<Rightarrow> 0
      | t # ts' \<Rightarrow> if \<forall>x\<in>set ts'. converted_offset u r x = converted_offset u r t
                  then converted_offset u r t else 0)"
  by (cases "mTrackReaders r")
     (simp_all add: GetFixedLeadFillerOffset_def Let_def GetFixedLeadFillerOffset_loop_later
        converted_offset_def [symmetric])

text \<open>
  Claim C10. \<^verbatim>\<open>GetFixedLeadFillerOffset\<close> returns 0 when there are no track readers, the
  common value when every track reader's lead filler offset, converted with \<^verbatim>\<open>ROUND_UP\<close>
  from the track's edit rate to the clip edit rate, is the same value, and 0 when two
  track readers' converted offsets differ. It holds for every \<^verbatim>\<open>convert_position\<close>.
\<close>

theorem GetFixedLeadFillerOffset_common_or_zero:
  "(mTrackReaders r = [] \<longrightarrow> GetFixedLeadFillerOffset u r = 0) \<and>
   (\<forall>v. mTrackReaders r \<noteq> [] \<and> (\<forall>t\<in>set (mTrackReaders r). converted_offset u r t = v)
        \<longrightarrow> GetFixedLeadFillerOffset u r = v) \<and>
   ((\<exists>a\<in>set (mTrackReaders r). \<exists>b\<in>set (mTrackReaders r).
        converted_offset u r a \<noteq> converted_offset u r b)
        \<longrightarrow> GetFixedLeadFillerOffset u r = 0)"
proof (cases "mTrackReaders r")
  case Nil
  then show ?thesis by (simp add: GetFixedLeadFillerOffset_eq)
next
  case (Cons t ts')
  show ?thesis
  proof (cases "\<forall>x\<in>set ts'. converted_offset u r x = converted_offset u r t")
    case True
    then show ?thesis using Cons by (auto simp: GetFixedLeadFillerOffset_eq)
  next
    case False
    then show ?thesis using Cons by (auto simp: GetFixedLeadFillerOffset_eq)
  qed
qed

theorem GetFixedLeadFillerOffset_common_or_zero_witness:
  "mTrackReaders (MXFFileReader_new\<lparr> mEditRate := er25 \<rparr>) = [] \<and>
   GetFixedLeadFillerOffset example_utils (MXFFileReader_new\<lparr> mEditRate := er25 \<rparr>) = 0 \<and>
   mTrackReaders (filler_reader 2 3840) = [picture_track_filler 2, sound_track 3840] \<and>
   converted_offset example_utils (filler_reader 2 3840) (picture_track_filler 2) = 2 \<and>
   converted_offset example_utils (filler_reader 2 3840) (sound_track 3840) = 2 \<and>
   GetFixedLeadFillerOffset example_utils (filler_reader 2 3840) = 2 \<and>
   converted_offset example_utils (filler_reader 2 3841) (picture_track_filler 2) = 2 \<and>
   converted_offset example_utils (filler_reader 2 3841) (sound_track 3841) = 3 \<and>
   GetFixedLeadFillerOffset example_utils (filler_reader 2 3841) = 0"
proof -
  have m: "mTrackReaders (MXFFileReader_new\<lparr> mEditRate := er25 \<rparr>) = []"
    "mTrackReaders (filler_reader 2 3840) = [picture_track_filler 2, sound_track 3840]"
    "mTrackReaders (filler_reader 2 3841) = [picture_track_filler 2, sound_track 3841]"
    by (simp_all add: filler_reader_def MXFFileReader_new_def)
  have c: "converted_offset example_utils (filler_reader 2 3840) (picture_track_filler 2) = 2"
    "converted_offset example_utils (filler_reader 2 3840) (sound_track 3840) = 2"
    "converted_offset example_utils (filler_reader 2 3841) (picture_track_filler 2) = 2"
    "converted_offset example_utils (filler_reader 2 3841) (sound_track 3841) = 3"
    by (simp_all add: converted_offset_def example_utils_def scale_rate_def er25_def
        filler_reader_def MXFFileReader_new_def picture_track_filler_def picture_track_def
        sound_track_def)
  have 1: "GetFixedLeadFillerOffset example_utils (MXFFileReader_new\<lparr> mEditRate := er25 \<rparr>) = 0"
    using GetFixedLeadFillerOffset_common_or_zero
      [of "MXFFileReader_new\<lparr> mEditRate := er25 \<rparr>" example_utils] m(1) by blast
  have 2: "GetFixedLeadFillerOffset example_utils (filler_reader 2 3840) = 2"
    using GetFixedLeadFillerOffset_common_or_zero [of "filler_reader 2 3840" example_utils] c m(2)
    by simp
  have "\<exists>a\<in>set (mTrackReaders (filler_reader 2 3841)).
          \<exists>b\<in>set (mTrackReaders (filler_reader 2 3841)).
             converted_offset example_utils (filler_reader 2 3841) a
               \<noteq> converted_offset example_utils (filler_reader 2 3841) b"
    unfolding m(3)
    by (intro bexI [of _ "picture_track_filler 2"] bexI [of _ "sound_track 3841"])
       (simp_all add: c)
  then have 3: "GetFixedLeadFillerOffset example_utils (filler_reader 2 3841) = 0"
    using GetFixedLeadFillerOffset_common_or_zero [of "filler_reader 2 3841" example_utils]
    by blast
  show ?thesis using m c 1 2 3 by (intro conjI)
qed

subsection \<open>The order of the track readers\<close>








section \<open>MXFFileReader: the clip duration and the clip edit rate\<close>

subsection \<open>The clip duration\<close>










subsection \<open>The clip edit rate\<close>

text \<open>
  Claim C5 says that with no internal track readers the clip edit rate is the lowest
  edit rate of the external tracks. \<^verbatim>\<open>CreateInternalTrackReader\<close> sets \<open>mEditRate\<close> before it
  looks for the file descriptor and returns 0 when there is none; the track is skipped
  and the edit rate stays. For a material package with such a picture track (25/1) and a
  sound track in an external file (48000/1), metadata processing succeeds with no
  internal track reader and the clip edit rate 25/1, not 48000/1: the section that
  would choose the lowest external edit rate runs only when \<open>mEditRate\<close> is still 0. This
  holds whatever the floats are.
\<close>

theorem edit_rate_of_skipped_internal_track:
  "\<exists>r. ProcessMetadata example_utils fo MXFFileReader_new skipped_picture_metadata = Inr r \<and>
       mInternalTrackReaders r = [] \<and>
       map track_edit_rate (mTrackReaders r) = [er48k] \<and>
       mEditRate r = er25"
proof -
  have t: "ProcessMetadata_tracks example_utils MXFFileReader_new (material_tracks skipped_picture_metadata)
         = Inr (MXFFileReader_new\<lparr> mEditRate := er25,
                  mExternalReaders := [audio_file 96000],
                  mExternalTrackReaders := [audio_file_track\<lparr> track_info := (track_info audio_file_track)\<lparr> duration := 96000 \<rparr> \<rparr>],
                  mTrackReaders := [audio_file_track\<lparr> track_info := (track_info audio_file_track)\<lparr> duration := 96000 \<rparr> \<rparr>] \<rparr>)"
    by (simp add: skipped_picture_metadata_def MXFFileReader_new_def ZERO_RATIONAL_def
          CreateInternalTrackReader_def picture_fsp_track_without_descriptor_def
          picture_mp_track_def er25_def er48k_def GetExternalTrackReader_def
          audio_file_track_def sound_track_def reparent_external_track_def sound_mp_track_def)
  show ?thesis
    unfolding ProcessMetadata_def t
    by (simp add: check_lead_filler_def GetFixedLeadFillerOffset_def example_utils_def
          scale_rate_def MXFFileReader_new_def audio_file_track_def sound_track_def
          fold_lead_filler_def set_clip_edit_rate_def er25_def er48k_def audio_file_def
          determine_clip_duration_def ExternalReader_ForceDuration_def position_lower_def
          position_higher_def sequence_sum_def skipped_picture_metadata_def)
qed

section \<open>MXFFileReader: precharge and rollout\<close>

lemma sint_int16: "- 32768 \<le> x \<Longrightarrow> x < 32768 \<Longrightarrow> sint (word_of_int x :: 16 word) = x"
  by (simp add: sint_sbintrunc' signed_take_bit_int_eq_self)

lemma sint8_range: "- 128 \<le> sint (w :: 8 word) \<and> sint w < 128"
  using sint_ge [of w] sint_lt [of w] by simp

lemma sint16_range: "- 32768 \<le> sint (w :: 16 word) \<and> sint w < 32768"
  using sint_ge [of w] sint_lt [of w] by simp

lemma sint_index_precharge:
  "sint (index_precharge r tp) =
     (case GetInternalIndexEntry r tp of
        None \<Rightarrow> 0
      | Some index_entry \<Rightarrow>
          if sint (temporal_offset index_entry) \<noteq> 0 then
            (case GetInternalIndexEntry r (tp + sint (temporal_offset index_entry)) of
               Some entry \<Rightarrow> sint (temporal_offset index_entry) + sint (key_frame_offset entry)
             | None \<Rightarrow> 0)
          else sint (key_frame_offset index_entry))"
proof -
  have a: "sint (word_of_int (sint a + sint b) :: 16 word) = sint a + sint b" for a b :: "8 word"
    using sint8_range [of a] sint8_range [of b] by (intro sint_int16) linarith+
  have b: "sint (word_of_int (sint a) :: 16 word) = sint a" for a :: "8 word"
    using sint8_range [of a] by (intro sint_int16) linarith+
  have z: "(w = 0) = (sint w = 0)" for w :: "8 word"
    by (simp add: signed_eq_0_iff)
  have a': "sint (scast a + scast b :: 16 word) = sint a + sint b" for a b :: "8 word"
    using a [of a b] by simp
  have b': "sint (scast a :: 16 word) = sint a" for a :: "8 word"
    using b [of a] by simp
  show ?thesis
    by (simp add: index_precharge_def Let_def a' b' z split: option.splits)
qed


lemma GetInternalPrecharge_nonpos:
  "GetInternalPrecharge u cpv r position limit = Inr v \<Longrightarrow> sint v \<le> 0"
  by (auto simp: GetInternalPrecharge_def Let_def split: if_splits option.splits)

lemma GetInternalRollout_nonneg:
  "GetInternalRollout u cpv r position limit = Inr v \<Longrightarrow> 0 \<le> sint v"
  by (auto simp: GetInternalRollout_def Let_def split: if_splits option.splits)

lemma GetMaxPrecharge_externals_range:
  "GetMaxPrecharge_externals u er tp False precharge m xs = Inr (precharge', m') \<Longrightarrow>
   - 32768 \<le> precharge \<Longrightarrow> precharge \<le> 0 \<Longrightarrow> - 32768 \<le> precharge' \<and> precharge' \<le> 0"
proof (induction xs arbitrary: precharge m)
  case Nil
  then show ?case by simp
next
  case (Cons x xs)
  show ?case
  proof (cases "x_enabled x")
    case False
    then show ?thesis using Cons by simp
  next
    case True
    then obtain w where w: "x_max_precharge x
                (convert_position_higher u tp (x_sample_sequence x) (x_sample_sequence_size x))
                False = Inr w"
      using Cons.prems(1) by (auto split: sum.splits)
    let ?p = "if w \<noteq> 0 \<and> sint w < precharge then sint w else precharge"
    have step: "GetMaxPrecharge_externals u er tp False ?p m xs = Inr (precharge', m')"
      using Cons.prems(1) True w
      by (cases "w \<noteq> 0 \<and> sint w < precharge") (auto simp: Let_def split: if_splits)
    have "- 32768 \<le> ?p \<and> ?p \<le> 0" using Cons.prems(2,3) sint16_range [of w] by auto
    then show ?thesis using Cons.IH [OF step] by simp
  qed
qed

lemma GetMaxRollout_externals_range:
  "GetMaxRollout_externals u er tp False rollout m xs = Inr (rollout', m') \<Longrightarrow>
   0 \<le> rollout \<Longrightarrow> rollout < 32768 \<Longrightarrow> 0 \<le> rollout' \<and> rollout' < 32768"
proof (induction xs arbitrary: rollout m)
  case Nil
  then show ?case by simp
next
  case (Cons x xs)
  show ?case
  proof (cases "x_enabled x")
    case False
    then show ?thesis using Cons by simp
  next
    case True
    then obtain w where w: "x_max_rollout x
                (convert_position_higher u (tp + 1) (x_sample_sequence x) (x_sample_sequence_size x) - 1)
                False = Inr w"
      using Cons.prems(1) by (auto split: sum.splits)
    let ?p = "if w \<noteq> 0 \<and> sint w > rollout then sint w else rollout"
    have step: "GetMaxRollout_externals u er tp False ?p m xs = Inr (rollout', m')"
      using Cons.prems(1) True w
      by (cases "w \<noteq> 0 \<and> sint w > rollout") (auto simp: Let_def split: if_splits)
    have "0 \<le> ?p \<and> ?p < 32768" using Cons.prems(2,3) sint16_range [of w] by auto
    then show ?thesis using Cons.IH [OF step] by simp
  qed
qed

lemma GetMaxPrecharge_nonpos:
  assumes "GetMaxPrecharge u cpv r position False = Inr v"
  shows "sint v \<le> 0"
proof -
  let ?tp = "target_position u cpv r position"
  obtain p0 m0 where start:
    "(if InternalIsEnabled r then
        (case GetInternalPrecharge u cpv r ?tp False of
           Inl e \<Rightarrow> Inl e | Inr p \<Rightarrow> Inr (sint p, INT64_MIN))
      else Inr (0, INT64_MIN)) = Inr (p0, m0)"
    using assms by (auto simp: GetMaxPrecharge_def Let_def split: if_splits sum.splits)
  have r0: "- 32768 \<le> p0 \<and> p0 \<le> 0"
    using start sint16_range GetInternalPrecharge_nonpos
    by (auto split: if_splits sum.splits)
  obtain p1 m1 where ext:
    "GetMaxPrecharge_externals u (mEditRate r) ?tp False p0 m0 (mExternalReaders r) = Inr (p1, m1)"
    and v: "v = (if p1 < 0 then word_of_int p1 else 0)"
    using assms start by (auto simp: GetMaxPrecharge_def Let_def split: if_splits sum.splits)
  have "- 32768 \<le> p1 \<and> p1 \<le> 0" using GetMaxPrecharge_externals_range [OF ext] r0 by simp
  then show ?thesis using v by (simp add: sint_int16)
qed

lemma GetMaxRollout_nonneg:
  assumes "GetMaxRollout u cpv r position False = Inr v"
  shows "0 \<le> sint v"
proof -
  let ?tp = "target_position u cpv r position"
  obtain p0 m0 where start:
    "(if InternalIsEnabled r then
        (case GetInternalRollout u cpv r ?tp False of
           Inl e \<Rightarrow> Inl e | Inr p \<Rightarrow> Inr (sint p, INT64_MAX))
      else Inr (0, INT64_MAX)) = Inr (p0, m0)"
    using assms by (auto simp: GetMaxRollout_def Let_def split: if_splits sum.splits)
  have r0: "0 \<le> p0 \<and> p0 < 32768"
    using start sint16_range GetInternalRollout_nonneg
    by (auto split: if_splits sum.splits)
  obtain p1 m1 where ext:
    "GetMaxRollout_externals u (mEditRate r) ?tp False p0 m0 (mExternalReaders r) = Inr (p1, m1)"
    and v: "v = (if p1 > 0 then word_of_int p1 else 0)"
    using assms start by (auto simp: GetMaxRollout_def Let_def split: if_splits sum.splits)
  have "0 \<le> p1 \<and> p1 < 32768" using GetMaxRollout_externals_range [OF ext] r0 by simp
  then show ?thesis using v by (simp add: sint_int16)
qed


lemma GetInternalPrecharge_unlimited:
  assumes "MXFFileReader_IsComplete r"
  shows "\<exists>v. GetInternalPrecharge u cpv r position False = Inr v \<and>
             sint v = (if legitimate_inter_frame_position r (target_position u cpv r position)
                       then spec_internal_precharge r (target_position u cpv r position) else 0)"
proof (cases "legitimate_inter_frame_position r (target_position u cpv r position)")
  case False
  then show ?thesis using assms
    by (auto simp: GetInternalPrecharge_def legitimate_inter_frame_position_def Let_def
          split: option.splits)
next
  case True
  let ?tp = "target_position u cpv r position"
  obtain e where e: "mEssenceReader r = Some e" "HaveInterFrameEncodingTrack r"
    "er_legitimise e (?tp + mFileOrigin r) - mFileOrigin r = ?tp"
    using True by (auto simp: legitimate_inter_frame_position_def split: option.splits)
  let ?p = "index_precharge r ?tp"
  have g: "GetInternalPrecharge u cpv r position False = Inr (if sint ?p < 0 then ?p else 0)"
    using assms e by (simp add: GetInternalPrecharge_def Let_def)
  have "spec_internal_precharge r ?tp = (if sint ?p > 0 then 0 else sint ?p)"
    by (simp add: spec_internal_precharge_def sint_index_precharge Let_def split: option.splits)
  then have "sint (if sint ?p < 0 then ?p else 0) = spec_internal_precharge r ?tp"
    by auto
  then show ?thesis using g True by simp
qed

lemma GetMaxPrecharge_externals_disabled:
  "list_all (\<lambda>x. \<not> x_enabled x) xs \<Longrightarrow>
   GetMaxPrecharge_externals u er tp limit precharge m xs = Inr (precharge, m)"
  by (induction xs) simp_all

lemma GetMaxRollout_externals_disabled:
  "list_all (\<lambda>x. \<not> x_enabled x) xs \<Longrightarrow>
   GetMaxRollout_externals u er tp limit rollout m xs = Inr (rollout, m)"
  by (induction xs) simp_all

lemma GetInternalRollout_returns:
  "MXFFileReader_IsComplete r \<Longrightarrow> \<exists>v. GetInternalRollout u cpv r position limit = Inr v"
  by (simp add: GetInternalRollout_def Let_def split: option.splits)

lemma GetInternalPrecharge_returns:
  "MXFFileReader_IsComplete r \<Longrightarrow> \<exists>v. GetInternalPrecharge u cpv r position limit = Inr v"
  by (simp add: GetInternalPrecharge_def Let_def split: option.splits)

text \<open>
  Claim C3, as the specification states it, fails in its second part: the internal
  precharge is read from the index only when an enabled internal track is inter-frame
  coded. With the long GOP picture track disabled the internal precharge at position 2
  is 0, while the index entry there has the temporal offset 0 and the key frame
  offset -2.
\<close>

theorem internal_precharge_without_inter_frame_track:
  "MXFFileReader_IsComplete (long_gop_reader False) \<and>
   er_legitimise gop_essence_reader 2 = 2 \<and>
   GetInternalIndexEntry (long_gop_reader False) 2
     = Some \<lparr> temporal_offset = 0, key_frame_offset = - 2 \<rparr> \<and>
   spec_internal_precharge (long_gop_reader False) 2 = - 2 \<and>
   GetInternalPrecharge example_utils INT64_MIN (long_gop_reader False) 2 False = Inr 0"
proof -
  have 1: "MXFFileReader_IsComplete (long_gop_reader False)"
    by (simp add: MXFFileReader_IsComplete_def long_gop_reader_def MXFFileReader_new_def
          gop_essence_reader_def)
  have 2: "er_legitimise gop_essence_reader 2 = 2" by (simp add: gop_essence_reader_def)
  have 3: "GetInternalIndexEntry (long_gop_reader False) 2
     = Some \<lparr> temporal_offset = 0, key_frame_offset = - 2 \<rparr>"
    by (simp add: GetInternalIndexEntry_def long_gop_reader_def MXFFileReader_new_def
          gop_essence_reader_def gop_index_def)
  have 4: "spec_internal_precharge (long_gop_reader False) 2 = - 2"
    by (simp add: spec_internal_precharge_def 3)
  have 5: "GetInternalPrecharge example_utils INT64_MIN (long_gop_reader False) 2 False = Inr 0"
    using 1 by (simp add: GetInternalPrecharge_def HaveInterFrameEncodingTrack_def
          long_gop_reader_def MXFFileReader_new_def long_gop_track_def sound_track_def
          picture_track_def)
  show ?thesis using 1 2 3 4 5 by (intro conjI)
qed

text \<open>
  Claim C3, amended. For a complete file and every position, a value that
  \<^verbatim>\<open>GetMaxPrecharge(p, false)\<close> returns is at most 0 and a value that
  \<^verbatim>\<open>GetMaxRollout(p, false)\<close> returns is at least 0, and both return when no external reader
  is enabled. The internal precharge (not limited to the available range) is the one the
  specification describes, from the index entries, when the reader has an essence
  reader, an enabled internal track is inter-frame coded and the target position is
  within the essence range; otherwise it is 0. It is 0 too where the index entry at the
  target position, or the one the temporal offset leads to, is missing.
\<close>

theorem precharge_bounds_and_inter_frame_precharge:
  "MXFFileReader_IsComplete r \<Longrightarrow>
     (\<forall>v. GetMaxPrecharge u cpv r position False = Inr v \<longrightarrow> sint v \<le> 0) \<and>
     (\<forall>v. GetMaxRollout u cpv r position False = Inr v \<longrightarrow> 0 \<le> sint v) \<and>
     (list_all (\<lambda>x. \<not> x_enabled x) (mExternalReaders r) \<longrightarrow>
        (\<exists>v w. GetMaxPrecharge u cpv r position False = Inr v \<and>
               GetMaxRollout u cpv r position False = Inr w)) \<and>
     (\<exists>v. GetInternalPrecharge u cpv r position False = Inr v \<and>
          sint v = (if legitimate_inter_frame_position r (target_position u cpv r position)
                    then spec_internal_precharge r (target_position u cpv r position) else 0))"
proof (intro conjI allI impI)
  assume c: "MXFFileReader_IsComplete r"
  show "\<exists>v. GetInternalPrecharge u cpv r position False = Inr v \<and>
          sint v = (if legitimate_inter_frame_position r (target_position u cpv r position)
                    then spec_internal_precharge r (target_position u cpv r position) else 0)"
    using c by (rule GetInternalPrecharge_unlimited)
  {
    fix v
    assume "GetMaxPrecharge u cpv r position False = Inr v"
    then show "sint v \<le> 0" by (rule GetMaxPrecharge_nonpos)
  }
  {
    fix v
    assume "GetMaxRollout u cpv r position False = Inr v"
    then show "0 \<le> sint v" by (rule GetMaxRollout_nonneg)
  }
  assume d: "list_all (\<lambda>x. \<not> x_enabled x) (mExternalReaders r)"
  let ?tp = "target_position u cpv r position"
  obtain a where a: "GetInternalPrecharge u cpv r ?tp False = Inr a"
    using GetInternalPrecharge_returns [OF c] by blast
  obtain b where b: "GetInternalRollout u cpv r ?tp False = Inr b"
    using GetInternalRollout_returns [OF c] by blast
  have "\<exists>v. GetMaxPrecharge u cpv r position False = Inr v"
    using c a by (simp add: GetMaxPrecharge_def Let_def GetMaxPrecharge_externals_disabled [OF d])
  moreover have "\<exists>w. GetMaxRollout u cpv r position False = Inr w"
    using c b by (simp add: GetMaxRollout_def Let_def GetMaxRollout_externals_disabled [OF d])
  ultimately show "\<exists>v w. GetMaxPrecharge u cpv r position False = Inr v \<and>
               GetMaxRollout u cpv r position False = Inr w"
    by blast
qed

theorem precharge_bounds_and_inter_frame_precharge_witness:
  "MXFFileReader_IsComplete (long_gop_reader True) \<and>
   list_all (\<lambda>x. \<not> x_enabled x) (mExternalReaders (long_gop_reader True)) \<and>
   legitimate_inter_frame_position (long_gop_reader True) 4 \<and>
   spec_internal_precharge (long_gop_reader True) 4 = - 4 \<and>
   GetInternalPrecharge example_utils INT64_MIN (long_gop_reader True) 4 False = Inr (- 4) \<and>
   GetMaxPrecharge example_utils INT64_MIN (long_gop_reader True) 4 False = Inr (- 4) \<and>
   sint (- 4 :: 16 word) \<le> 0 \<and>
   GetMaxRollout example_utils INT64_MIN (long_gop_reader True) 4 False = Inr 0"
proof -
  have c: "MXFFileReader_IsComplete (long_gop_reader True)"
    by (simp add: MXFFileReader_IsComplete_def long_gop_reader_def MXFFileReader_new_def
          gop_essence_reader_def)
  have d: "list_all (\<lambda>x. \<not> x_enabled x) (mExternalReaders (long_gop_reader True))"
    by (simp add: long_gop_reader_def MXFFileReader_new_def)
  have tp: "target_position example_utils INT64_MIN (long_gop_reader True) 4 = 4"
    by (simp add: target_position_def INT64_MIN_def)
  have l: "legitimate_inter_frame_position (long_gop_reader True) 4"
    by (simp add: legitimate_inter_frame_position_def HaveInterFrameEncodingTrack_def
          long_gop_reader_def MXFFileReader_new_def long_gop_track_def gop_essence_reader_def)
  have e: "GetInternalIndexEntry (long_gop_reader True) 4
             = Some \<lparr> temporal_offset = - 2, key_frame_offset = - 1 \<rparr>"
    "GetInternalIndexEntry (long_gop_reader True) 2
             = Some \<lparr> temporal_offset = 0, key_frame_offset = - 2 \<rparr>"
    by (simp_all add: GetInternalIndexEntry_def long_gop_reader_def MXFFileReader_new_def
          gop_essence_reader_def gop_index_def)
  have s: "spec_internal_precharge (long_gop_reader True) 4 = - 4"
    by (simp add: spec_internal_precharge_def e)
  note t = precharge_bounds_and_inter_frame_precharge
             [OF c, of example_utils INT64_MIN 4, unfolded tp]
  obtain v where v: "GetInternalPrecharge example_utils INT64_MIN (long_gop_reader True) 4 False = Inr v"
    "sint v = - 4"
    using t l s by auto
  have "sint v = sint (- 4 :: 16 word)" using v(2) by simp
  then have v4: "v = - 4" by (simp only: word_eq_iff_signed [symmetric])
  have ir: "GetInternalRollout example_utils INT64_MIN (long_gop_reader True) 4 False = Inr 0"
    by code_simp
  have ie: "InternalIsEnabled (long_gop_reader True)"
    by (simp add: InternalIsEnabled_def long_gop_reader_def MXFFileReader_new_def long_gop_track_def)
  have x: "mExternalReaders (long_gop_reader True) = []"
    by (simp add: long_gop_reader_def MXFFileReader_new_def)
  have mp: "GetMaxPrecharge example_utils INT64_MIN (long_gop_reader True) 4 False = Inr (- 4)"
    using c ie v(1) v4 x by (simp add: GetMaxPrecharge_def tp Let_def)
  have mr: "GetMaxRollout example_utils INT64_MIN (long_gop_reader True) 4 False = Inr 0"
    using c ie ir x by (simp add: GetMaxRollout_def tp Let_def)
  have b: "sint (- 4 :: 16 word) \<le> 0" using t mp by blast
  show ?thesis using c d l s v(1) v4 mp b mr by (intro conjI) simp_all
qed

subsection \<open>Read\<close>

lemma Read_max_num_read:
  "Read_try env u r n is_top cp = (r2, Inr m) \<Longrightarrow> m \<le> n"
  by (auto simp: Read_try_def Let_def split: prod.splits sum.splits option.splits if_splits)

text \<open>
  Claim C2. For every reader, every environment of reads and every \<open>num_samples\<close>, the
  value returned by \<^verbatim>\<open>Read(num_samples, is_top)\<close> is at most \<open>num_samples\<close>, whatever the
  conversions of the external readers' counts give: a larger count fails the assertion
  \<^verbatim>\<open>max_num_read <= num_samples\<close>, and the read then returns 0.
\<close>

theorem Read_at_most_num_samples:
  "snd (Read env u r num_samples is_top) \<le> num_samples"
proof -
  let ?r1 = "Read_prepare env r"
  show ?thesis
  proof (cases "mRequireFrameInfoCount ?r1 > 0")
    case True
    then show ?thesis by (simp add: Read_def Let_def)
  next
    case False
    obtain r2 res where t:
      "Read_try env u (StartRead ?r1) num_samples is_top (GetPosition u ?r1) = (r2, res)"
      by (cases "Read_try env u (StartRead ?r1) num_samples is_top (GetPosition u ?r1)")
    show ?thesis
    proof (cases res)
      case (Inl e)
      then show ?thesis using False t by (simp add: Read_def Let_def)
    next
      case (Inr m)
      then have "m \<le> num_samples" using t Read_max_num_read by blast
      then show ?thesis using False t Inr by (simp add: Read_def Let_def)
    qed
  qed
qed

theorem Read_at_most_num_samples_witness:
  "Read_externals complete_reads example_utils 3 2 0 (mExternalReaders external_only_reader)
     = ([(audio_file 96000)\<lparr> x_position := 9600 \<rparr>], Inr 3) \<and>
   snd (Read complete_reads example_utils external_only_reader 3 True) = 3 \<and>
   snd (Read complete_reads example_utils external_only_reader 3 True) \<le> 3"
proof -
  have a: "Read_externals complete_reads example_utils 3 2 0 (mExternalReaders external_only_reader)
     = ([(audio_file 96000)\<lparr> x_position := 9600 \<rparr>], Inr 3)"
    by (simp add: external_only_reader_def MXFFileReader_new_def audio_file_def complete_reads_def
          example_utils_def position_higher_def position_lower_def sequence_sum_def
          ExternalReader_Seek_def Let_def)
  have b: "snd (Read complete_reads example_utils external_only_reader 3 True) = 3"
    by code_simp
  show ?thesis
    using Read_at_most_num_samples [of complete_reads example_utils external_only_reader 3 True] a b
    by simp
qed

lemma Read_externals_static:
  "Read_externals env u n cp m xs = (ys, res) \<Longrightarrow> map x_static ys = map x_static xs"
proof (induction xs arbitrary: m ys res)
  case Nil
  then show ?case by simp
next
  case (Cons x xs)
  show ?case
  proof (cases "x_enabled x")
    case False
    then show ?thesis using Cons
      by (auto split: prod.splits)
  next
    case True
    then show ?thesis using Cons
      by (auto simp: Let_def x_static_def ExternalReader_Seek_def split: prod.splits if_splits)
  qed
qed

lemma first_enabled_position_Seek:
  "first_enabled_position u (map (Seek_external u p) xs) = position_after_seek u p (map x_static xs)"
  by (induction xs) (simp_all add: Seek_external_def ExternalReader_Seek_def x_static_def)

lemma position_after_seek_round_trip:
  "list_all (\<lambda>x. x_enabled x \<longrightarrow> round_trip u p x) xs \<Longrightarrow>
   position_after_seek u p (map x_static xs) = (if list_ex x_enabled xs then p else 0)"
  by (induction xs) (auto simp: x_static_def round_trip_def)

lemma first_enabled_position_none:
  "\<not> list_ex x_enabled xs \<Longrightarrow> first_enabled_position u xs = 0"
  by (induction xs) auto

lemma Read_try_frame:
  assumes "Read_try env u r n is_top cp = (r2, res)"
  shows "mInternalTrackReaders r2 = mInternalTrackReaders r"
    and "mFileOrigin r2 = mFileOrigin r"
    and "(mEssenceReader r2 = None) = (mEssenceReader r = None)"
    and "map x_static (mExternalReaders r2) = map x_static (mExternalReaders r)"
proof -
  define r1 where "r1 = (if is_top
                then SetNextFrameTrackPositions (SetNextFramePosition r (mEditRate r) cp)
                else r)"
  have r1: "mInternalTrackReaders r1 = mInternalTrackReaders r" "mFileOrigin r1 = mFileOrigin r"
    "mEssenceReader r1 = mEssenceReader r" "mExternalReaders r1 = mExternalReaders r"
    by (simp_all add: r1_def SetNextFrameTrackPositions_def SetNextFramePosition_def)
  define step where "step = (case (if InternalIsEnabled r1 then mEssenceReader r1 else None) of
                 Some e \<Rightarrow>
                   (case EssenceReader_Read env e n of
                      (position, res) \<Rightarrow>
                        (r1\<lparr> mEssenceReader := Some (e\<lparr> er_position := position \<rparr>) \<rparr>, res))
               | None \<Rightarrow> (r1, Inr 0))"
  obtain ra resa where s: "step = (ra, resa)" by (cases step)
  have ra: "mInternalTrackReaders ra = mInternalTrackReaders r" "mFileOrigin ra = mFileOrigin r"
    "(mEssenceReader ra = None) = (mEssenceReader r = None)" "mExternalReaders ra = mExternalReaders r"
    using s r1 unfolding step_def
    by (auto split: option.splits prod.splits if_splits)
  have t: "Read_try env u r n is_top cp =
     (case step of
           (r2, Inl e) \<Rightarrow> (r2, Inl e)
         | (r2, Inr max_num_read) \<Rightarrow>
             (case Read_externals env u n cp max_num_read (mExternalReaders r2) of
                (xs, Inl e) \<Rightarrow> (r2\<lparr> mExternalReaders := xs \<rparr>, Inl e)
              | (xs, Inr max_num_read1) \<Rightarrow>
                  if \<not> max_num_read1 \<le> n
                  then (r2\<lparr> mExternalReaders := xs \<rparr>, Inl AssertFailed)
                  else (CompleteRead (r2\<lparr> mExternalReaders := xs \<rparr>), Inr max_num_read1)))"
    unfolding Read_try_def step_def r1_def Let_def ..
  show "mInternalTrackReaders r2 = mInternalTrackReaders r"
    and "mFileOrigin r2 = mFileOrigin r"
    and "(mEssenceReader r2 = None) = (mEssenceReader r = None)"
    and "map x_static (mExternalReaders r2) = map x_static (mExternalReaders r)"
    using assms ra Read_externals_static unfolding t s
    by (auto simp: CompleteRead_def split: sum.splits prod.splits if_splits)
qed


lemma Read_prepare_frame:
  "mInternalTrackReaders (Read_prepare env r) = mInternalTrackReaders r"
  "mFileOrigin (Read_prepare env r) = mFileOrigin r"
  "mEssenceReader (Read_prepare env r) = mEssenceReader r"
  "mExternalReaders (Read_prepare env r) = mExternalReaders r"
  by (simp_all add: Read_prepare_def ExtractFrameInfo_def Let_def)

lemma StartRead_frame:
  "mInternalTrackReaders (StartRead r) = mInternalTrackReaders r"
  "mFileOrigin (StartRead r) = mFileOrigin r"
  "mEssenceReader (StartRead r) = mEssenceReader r"
  "mExternalReaders (StartRead r) = mExternalReaders r"
  by (simp_all add: StartRead_def)

lemma GetPosition_Read_prepare: "GetPosition u (Read_prepare env r) = GetPosition u r"
  by (simp add: GetPosition_def InternalIsEnabled_def Read_prepare_frame cong: option.case_cong if_cong)

lemma Seek_AbortRead_fields:
  "mReadError (Seek u (AbortRead (r\<lparr> mReadError := True \<rparr>)) p)"
  "mTrackReaders (Seek u (AbortRead (r\<lparr> mReadError := True \<rparr>)) p) =
     map (frame_buffer_do FB_AbortRead) (mTrackReaders r)"
  by (simp_all add: Seek_def AbortRead_def Let_def split: option.splits)

lemma GetPosition_Seek_internal:
  assumes "InternalIsEnabled r" "mEssenceReader r \<noteq> None"
  shows "GetPosition u (Seek u (AbortRead (r\<lparr> mReadError := b \<rparr>)) p) = p"
  using assms
  by (auto simp: GetPosition_def Seek_def AbortRead_def InternalIsEnabled_def Let_def
                 EssenceReader_Seek_def split: option.splits)

lemma GetPosition_Seek_external:
  assumes "\<not> (InternalIsEnabled r \<and> mEssenceReader r \<noteq> None)"
  shows "GetPosition u (Seek u (AbortRead (r\<lparr> mReadError := b \<rparr>)) p) =
         position_after_seek u p (map x_static (mExternalReaders r))"
  using assms
  by (auto simp: GetPosition_def Seek_def AbortRead_def InternalIsEnabled_def Let_def
                 first_enabled_position_Seek split: option.splits)

text \<open>
  Claim C1. If a read gets past the extraction of frame information and an exception is
  raised in the \<^verbatim>\<open>try\<close> block (by the essence reader, by the read error of an external
  reader, or by the assertion), then \<^verbatim>\<open>Read\<close> returns 0 with the read-error flag set,
  \<^verbatim>\<open>AbortRead\<close> has been called on the frame buffer of every enabled track reader, and
  \<^verbatim>\<open>GetPosition\<close> gives the position that was taken at entry. When the position comes
  from the external readers, this needs the position conversions of the enabled ones
  to give the entry position back.
\<close>

theorem Read_exception_aborts_and_restores:
  assumes prepared: "mRequireFrameInfoCount (Read_prepare env r) = 0"
    and snapshot: "current_position = GetPosition u (Read_prepare env r)"
    and raised: "Read_try env u (StartRead (Read_prepare env r)) num_samples is_top
                   current_position = (r2, Inl ex)"
    and seekable: "internal_essence r \<noteq> None \<or>
                   list_all (\<lambda>x. x_enabled x \<longrightarrow> round_trip u current_position x)
                     (mExternalReaders r)"
  shows "\<exists>r'. Read env u r num_samples is_top = (r', 0) \<and>
              mReadError r' \<and>
              GetPosition u r' = current_position \<and>
              mTrackReaders r' = map (frame_buffer_do FB_AbortRead) (mTrackReaders r2)"
proof -
  define r' where "r' = Seek u (AbortRead (r2\<lparr> mReadError := True \<rparr>)) current_position"
  have res: "Read env u r num_samples is_top = (r', 0)"
    using prepared raised snapshot by (simp add: Read_def Let_def r'_def)
  have err: "mReadError r'" and trk: "mTrackReaders r' = map (frame_buffer_do FB_AbortRead) (mTrackReaders r2)"
    by (simp_all add: r'_def Seek_AbortRead_fields)
  note fr = Read_try_frame [OF raised]
  have tr: "mInternalTrackReaders r2 = mInternalTrackReaders r"
    using fr(1) by (simp add: StartRead_frame Read_prepare_frame)
  have er: "(mEssenceReader r2 = None) = (mEssenceReader r = None)"
    using fr(3) by (simp add: StartRead_frame Read_prepare_frame)
  have xr: "map x_static (mExternalReaders r2) = map x_static (mExternalReaders r)"
    using fr(4) by (simp add: StartRead_frame Read_prepare_frame)
  have en: "InternalIsEnabled r2 = InternalIsEnabled r"
    by (simp add: InternalIsEnabled_def tr)
  have cp: "current_position = GetPosition u r"
    using snapshot by (simp add: GetPosition_Read_prepare)
  have pos: "GetPosition u r' = current_position"
  proof (cases "InternalIsEnabled r \<and> mEssenceReader r \<noteq> None")
    case True
    then show ?thesis
      unfolding r'_def using en er by (intro GetPosition_Seek_internal) auto
  next
    case False
    then have none: "internal_essence r = None"
      by (auto simp: internal_essence_def)
    then have rt: "list_all (\<lambda>x. x_enabled x \<longrightarrow> round_trip u current_position x)
                     (mExternalReaders r)"
      using seekable by simp
    have "\<not> (InternalIsEnabled r2 \<and> mEssenceReader r2 \<noteq> None)"
      using False en er by simp
    then have "GetPosition u r' = position_after_seek u current_position (map x_static (mExternalReaders r))"
      unfolding r'_def by (simp add: GetPosition_Seek_external xr)
    also have "\<dots> = (if list_ex x_enabled (mExternalReaders r) then current_position else 0)"
      using rt by (rule position_after_seek_round_trip)
    also have "\<dots> = current_position"
    proof (cases "list_ex x_enabled (mExternalReaders r)")
      case True
      then show ?thesis by simp
    next
      case nex: False
      have "GetPosition u r = first_enabled_position u (mExternalReaders r)"
        using False by (auto simp: GetPosition_def split: option.splits)
      then show ?thesis using nex cp by (simp add: first_enabled_position_none)
    qed
    finally show ?thesis .
  qed
  show ?thesis using res err pos trk by blast
qed

theorem Read_exception_aborts_and_restores_witness:
  "mRequireFrameInfoCount (Read_prepare failing_reads external_only_reader) = 0 \<and>
   GetPosition example_utils (Read_prepare failing_reads external_only_reader) = 2 \<and>
   snd (Read_try failing_reads example_utils
          (StartRead (Read_prepare failing_reads external_only_reader)) 3 True 2) = Inl BMXException \<and>
   list_all (round_trip example_utils 2) (mExternalReaders external_only_reader) \<and>
   snd (Read failing_reads example_utils external_only_reader 3 True) = 0 \<and>
   mReadError (fst (Read failing_reads example_utils external_only_reader 3 True)) \<and>
   GetPosition example_utils (fst (Read failing_reads example_utils external_only_reader 3 True)) = 2 \<and>
   map frame_buffer (mTrackReaders (fst (Read failing_reads example_utils external_only_reader 3 True)))
     = [[FB_StartRead, FB_SetNextFramePosition er25 2,
         FB_SetNextFrameTrackPosition \<lparr> numerator = 48000, denominator = 1 \<rparr> 0, FB_AbortRead]]"
proof -
  let ?r = external_only_reader
  let ?t = "Read_try failing_reads example_utils (StartRead (Read_prepare failing_reads ?r)) 3 True 2"
  have p: "mRequireFrameInfoCount (Read_prepare failing_reads ?r) = 0"
    by code_simp
  have s: "2 = GetPosition example_utils (Read_prepare failing_reads ?r)"
    by code_simp
  have e: "snd ?t = Inl BMXException"
    by code_simp
  then have t: "?t = (fst ?t, Inl BMXException)"
    by (metis prod.collapse)
  have rt: "list_all (round_trip example_utils 2) (mExternalReaders ?r)"
    by code_simp
  then have k: "internal_essence ?r \<noteq> None \<or>
                list_all (\<lambda>x. x_enabled x \<longrightarrow> round_trip example_utils 2 x) (mExternalReaders ?r)"
    by (simp add: list_all_iff)
  have b: "map frame_buffer (map (frame_buffer_do FB_AbortRead) (mTrackReaders (fst ?t)))
     = [[FB_StartRead, FB_SetNextFramePosition er25 2,
         FB_SetNextFrameTrackPosition \<lparr> numerator = 48000, denominator = 1 \<rparr> 0, FB_AbortRead]]"
    by code_simp
  obtain r' where r': "Read failing_reads example_utils ?r 3 True = (r', 0)" "mReadError r'"
    "GetPosition example_utils r' = 2"
    "mTrackReaders r' = map (frame_buffer_do FB_AbortRead) (mTrackReaders (fst ?t))"
    using Read_exception_aborts_and_restores [OF p s t k] by blast
  show ?thesis
    using p s [symmetric] e rt r' b by simp
qed

end
